theory Spec2Isabelle
  imports Main "HOL-Library.Multiset" "HOL-Library.Sublist" "HOL-Library.Char_ord"
    "HOL-Library.List_Lexorder"
begin

section \<open>Strings and paths\<close>

text \<open>
  Go strings are byte sequences; they are modelled as \<open>string\<close> (a list of bytes).
  \<open>split_on c s\<close> is \<^verbatim>\<open>strings.Split(s, sep)\<close> for a one-byte separator: the result
  always has at least one element, and an empty input gives one empty element.
\<close>

fun split_on :: "char \<Rightarrow> string \<Rightarrow> string list" where
  "split_on c [] = [[]]"
| "split_on c (x # xs) =
     (if x = c then [] # split_on c xs
      else (case split_on c xs of
              [] \<Rightarrow> [[x]]
            | p # ps \<Rightarrow> (x # p) # ps))"

text \<open>\<^verbatim>\<open>strings.HasPrefix(s, p)\<close>.\<close>

definition hasPrefix :: "string \<Rightarrow> string \<Rightarrow> bool" where
  "hasPrefix s p = (take (length p) s = p)"

text \<open>\<^verbatim>\<open>strings.Contains(s, sub)\<close>: \<open>sub\<close> occurs in \<open>s\<close> as a contiguous block.\<close>

fun str_contains :: "string \<Rightarrow> string \<Rightarrow> bool" where
  "str_contains [] sub = (sub = [])"
| "str_contains (x # xs) sub = (hasPrefix (x # xs) sub \<or> str_contains xs sub)"

text \<open>
  \<^verbatim>\<open>strings.ToLower\<close> on the ASCII range: the bytes \<open>A\<close> .. \<open>Z\<close> (65 .. 90) move to
  \<open>a\<close> .. \<open>z\<close>, every other byte is kept.
\<close>

definition lower_char :: "char \<Rightarrow> char" where
  "lower_char c =
     (let n = of_char c :: nat in if 65 \<le> n \<and> n \<le> 90 then char_of (n + 32) else c)"

definition toLower :: "string \<Rightarrow> string" where
  "toLower s = map lower_char s"

text \<open>
  \<^verbatim>\<open>strings.ReplaceAll(s, old, new)\<close> for a one-byte \<open>old\<close> and a one-byte \<open>new\<close>.
\<close>

definition replaceAll :: "string \<Rightarrow> char \<Rightarrow> char \<Rightarrow> string" where
  "replaceAll s old new = map (\<lambda>c. if c = old then new else c) s"

text \<open>
  A location in the file system is the list of directory names leading to it from the
  file system root. \<^verbatim>\<open>filepath.Join(dir, name)\<close> followed by the operating system's
  lexical resolution is \<open>join\<close>: the name is cut at every slash, empty and \<open>.\<close>
  elements are dropped, and \<open>..\<close> steps to the parent (the root is its own parent).
  Symbolic links are not modelled.
\<close>

type_synonym path = "string list"

definition path_step :: "path \<Rightarrow> string \<Rightarrow> path" where
  "path_step p c =
     (if c = [] \<or> c = ''.'' then p
      else if c = ''..'' then butlast p
      else p @ [c])"

definition join :: "path \<Rightarrow> string \<Rightarrow> path" where
  "join p s = foldl path_step p (split_on CHR ''/'' s)"

section \<open>Data model (package models)\<close>

text \<open>
  \<^verbatim>\<open>DatastoreType\<close> is a string type in the source, so a configured hint may be any
  string; the six constants are the kinds the classifier itself produces.
\<close>

type_synonym DatastoreType = string

definition DatastorePostgres :: DatastoreType where "DatastorePostgres = ''postgres''"
definition DatastoreMySQL :: DatastoreType where "DatastoreMySQL = ''mysql''"
definition DatastoreRedis :: DatastoreType where "DatastoreRedis = ''redis''"
definition DatastoreMongoDB :: DatastoreType where "DatastoreMongoDB = ''mongodb''"
definition DatastoreNeo4j :: DatastoreType where "DatastoreNeo4j = ''neo4j''"
definition DatastoreGeneric :: DatastoreType where "DatastoreGeneric = ''generic''"

text \<open>
  The human-readable size strings (\<^verbatim>\<open>SizeHuman\<close>, produced by floating-point formatting)
  are left out of \<open>Volume\<close> and \<open>Snapshot\<close>; sizes are byte counts.
\<close>

record Volume =
  Name :: string
  DatastoreType :: DatastoreType
  ContainerName :: string
  MountPath :: string
  ImageName :: string
  SizeBytes :: int

text \<open>
  Timestamps are instants, counted in nanoseconds. The storage path is the location the
  path string denotes. The key-value metadata is an association list. Record fields
  share one name space, so the fields \<^verbatim>\<open>Name\<close>, \<^verbatim>\<open>Volumes\<close>, \<^verbatim>\<open>SizeBytes\<close> and
  \<^verbatim>\<open>Path\<close> of a snapshot are \<open>SName\<close>, \<open>SVolumes\<close>, \<open>STotalBytes\<close> and \<open>SPath\<close>.
\<close>

record Snapshot =
  SName :: string
  Timestamp :: int
  SVolumes :: "Volume list"
  STotalBytes :: int
  SPath :: path
  Tags :: "string list"
  Description :: string
  Metadata :: "(string \<times> string) list"
  ParentName :: string
  Incremental :: bool

text \<open>
  \<^verbatim>\<open>Config.SnapshotDir\<close> is held as the directory it denotes (the configured string,
  which is not empty, resolved against the working directory). \<^verbatim>\<open>DatastoreHints\<close> is
  an association list; a missing key reads as the empty string, as a Go map of strings
  does.
\<close>

record Config =
  ComposeFile :: string
  IncludeVolumes :: "string list"
  ExcludeVolumes :: "string list"
  DatastoreHints :: "(string \<times> DatastoreType) list"
  SnapshotDir :: path
  BackupBeforeRestore :: bool
  DefaultTags :: "string list"
  RetentionDays :: int

definition hint_for :: "Config \<Rightarrow> string \<Rightarrow> DatastoreType" where
  "hint_for cfg volumeName =
     (case map_of (DatastoreHints cfg) volumeName of None \<Rightarrow> [] | Some h \<Rightarrow> h)"

section \<open>Volume detection (package docker)\<close>

text \<open>
  The decoded manifest. \<^verbatim>\<open>Services\<close> is a Go map: \<open>Services\<close> lists its entries in the
  order in which one \<^verbatim>\<open>range\<close> loop over the map visits them, which Go leaves
  unspecified and varies from one loop to the next. \<^verbatim>\<open>Volumes\<close> is a Go map of which
  only the keys are read: \<open>None\<close> is the nil map (the section is absent), \<open>Some ks\<close> a
  map with the keys \<open>ks\<close> (\<open>Some []\<close> is a section that is present and empty).
\<close>

record ComposeService =
  Image :: string
  SContainerName :: string
  Mounts :: "string list"

record ComposeConfig =
  Services :: "(string \<times> ComposeService) list"
  DeclaredVolumes :: "string list option"

text \<open>\<^verbatim>\<open>contains(slice, item)\<close>.\<close>

fun contains :: "string list \<Rightarrow> string \<Rightarrow> bool" where
  "contains [] item = False"
| "contains (s # slice) item = (if s = item then True else contains slice item)"

text \<open>\<^verbatim>\<open>Client.inferDatastoreType\<close>: the hint, then the image, then the mount path.\<close>

definition inferDatastoreType :: "string \<Rightarrow> string \<Rightarrow> DatastoreType \<Rightarrow> DatastoreType" where
  "inferDatastoreType img mountPath hint =
     (if hint \<noteq> [] then hint
      else let imageLower = toLower img in
        if str_contains imageLower ''postgres'' then DatastorePostgres
        else if str_contains imageLower ''mysql'' \<or> str_contains imageLower ''mariadb''
          then DatastoreMySQL
        else if str_contains imageLower ''redis'' then DatastoreRedis
        else if str_contains imageLower ''mongo'' then DatastoreMongoDB
        else if str_contains imageLower ''neo4j'' then DatastoreNeo4j
        else if str_contains mountPath ''postgresql'' \<or> str_contains mountPath ''pgdata''
          then DatastorePostgres
        else if str_contains mountPath ''mysql'' then DatastoreMySQL
        else if str_contains mountPath ''redis'' then DatastoreRedis
        else if str_contains mountPath ''mongo'' then DatastoreMongoDB
        else if str_contains mountPath ''neo4j'' then DatastoreNeo4j
        else DatastoreGeneric)"

text \<open>
  \<^verbatim>\<open>filepath.Base\<close> on a Unix path, and \<^verbatim>\<open>Client.getProjectName\<close>: the argument is the
  result of \<^verbatim>\<open>os.Getwd\<close>, \<open>None\<close> when it fails.
\<close>

definition filepath_Base :: "string \<Rightarrow> string" where
  "filepath_Base p =
     (if p = [] then ''.''
      else let stripped = rev (dropWhile (\<lambda>c. c = CHR ''/'') (rev p));
               lastElem = rev (takeWhile (\<lambda>c. c \<noteq> CHR ''/'') (rev stripped))
           in if lastElem = [] then ''/'' else lastElem)"

definition getProjectName :: "string option \<Rightarrow> string" where
  "getProjectName getwd = (case getwd of None \<Rightarrow> ''unknown'' | Some cwd \<Rightarrow> filepath_Base cwd)"

text \<open>
  The body of the inner loop of \<^verbatim>\<open>DetectComposeVolumes\<close> for one mount entry:
  \<open>None\<close> is a \<^verbatim>\<open>continue\<close>, \<open>Some v\<close> the volume appended.
\<close>

definition mount_volume ::
  "Config \<Rightarrow> string \<Rightarrow> ComposeConfig \<Rightarrow> ComposeService \<Rightarrow> string \<Rightarrow> Volume option" where
  "mount_volume cfg projectName compose service volumeMount =
     (let parts = split_on CHR '':'' volumeMount in
      if length parts < 2 then None
      else
        let volumeName = parts ! 0; mountPath = parts ! 1 in
        if hasPrefix volumeName ''.'' \<or> hasPrefix volumeName ''/'' then None
        else if (case DeclaredVolumes compose of
                   None \<Rightarrow> False
                 | Some declared \<Rightarrow> volumeName \<notin> set declared) then None
        else if IncludeVolumes cfg \<noteq> [] \<and> \<not> contains (IncludeVolumes cfg) volumeName then None
        else if contains (ExcludeVolumes cfg) volumeName then None
        else Some \<lparr>Name = projectName @ ''_'' @ volumeName,
                   DatastoreType =
                     inferDatastoreType (Image service) mountPath (hint_for cfg volumeName),
                   ContainerName = SContainerName service,
                   MountPath = mountPath,
                   ImageName = Image service,
                   SizeBytes = 0\<rparr>)"

text \<open>The inner loop over the mount entries of one service, appending to \<open>volumes\<close>.\<close>

fun service_volumes ::
  "Config \<Rightarrow> string \<Rightarrow> ComposeConfig \<Rightarrow> ComposeService \<Rightarrow> string list \<Rightarrow> Volume list
     \<Rightarrow> Volume list" where
  "service_volumes cfg pn compose service [] volumes = volumes"
| "service_volumes cfg pn compose service (m # ms) volumes =
     (case mount_volume cfg pn compose service m of
        None \<Rightarrow> service_volumes cfg pn compose service ms volumes
      | Some v \<Rightarrow> service_volumes cfg pn compose service ms (volumes @ [v]))"

text \<open>The outer loop over the services, in the order the map is visited.\<close>

fun detect_loop ::
  "Config \<Rightarrow> string \<Rightarrow> ComposeConfig \<Rightarrow> (string \<times> ComposeService) list \<Rightarrow> Volume list
     \<Rightarrow> Volume list" where
  "detect_loop cfg pn compose [] volumes = volumes"
| "detect_loop cfg pn compose ((serviceName, service) # rest) volumes =
     detect_loop cfg pn compose rest
       (service_volumes cfg pn compose service (Mounts service) volumes)"

text \<open>
  \<^verbatim>\<open>DetectComposeVolumes\<close> from the point where the manifest has been decoded
  (finding, reading and decoding the file, each with its error return, come before):
  \<open>getwd\<close> is the result of \<^verbatim>\<open>os.Getwd\<close>.
\<close>

definition DetectComposeVolumes :: "Config \<Rightarrow> string option \<Rightarrow> ComposeConfig \<Rightarrow> Volume list" where
  "DetectComposeVolumes cfg getwd compose =
     detect_loop cfg (getProjectName getwd) compose (Services compose) []"


section \<open>The environment of the snapshot manager\<close>

text \<open>
  A file holds a metadata record (bytes that decode to that \<open>Snapshot\<close>), a volume
  archive (with the volume data it packs) or anything else (bytes that do not decode
  as a record). Encoding a record and decoding it again gives the record back.
\<close>

datatype content = Meta Snapshot | Archive string | Other

datatype node = File content | Dir

text \<open>
  The file system is an association list from locations to nodes, read through
  \<open>map_of\<close>; the root of the file system is always a directory.
\<close>

type_synonym filesystem = "(path \<times> node) list"

definition node_at :: "filesystem \<Rightarrow> path \<Rightarrow> node option" where
  "node_at fsys p = (if p = [] then Some Dir else map_of fsys p)"

definition fs_put :: "filesystem \<Rightarrow> path \<Rightarrow> node \<Rightarrow> filesystem" where
  "fs_put fsys p n = (p, n) # filter (\<lambda>(q, _). q \<noteq> p) fsys"

text \<open>The calls made to the container runtime, in the order they are made.\<close>

datatype event =
    EvStop "string list"
  | EvStart "string list"
  | EvExport string path
  | EvImport path string

text \<open>
  The state outside the program: the file system, the data of each named volume, the
  clock read by \<^verbatim>\<open>time.Now\<close>, and the calls issued so far. Pausing and resuming a
  container is recorded as a call and changes nothing else.
\<close>

record world =
  fs :: filesystem
  vols :: "string \<Rightarrow> string"
  clock :: int
  trace :: "event list"

text \<open>
  What the program cannot decide: whether a system call or a runtime command fails, the
  size \<^verbatim>\<open>os.Stat\<close> reports, and how a time is printed. A failed export or import
  either leaves its target untouched or leaves it damaged.
\<close>

datatype outcome = Done | FailedClean | FailedPartial

record env =
  mkdir_fails :: "path \<Rightarrow> bool"
  write_fails :: "path \<Rightarrow> bool"
  remove_fails :: "path \<Rightarrow> bool"
  export_outcome :: "world \<Rightarrow> Volume \<Rightarrow> path \<Rightarrow> outcome"
  import_outcome :: "world \<Rightarrow> path \<Rightarrow> Volume \<Rightarrow> outcome"
  stat_size :: "node \<Rightarrow> int"
  format_time :: "int \<Rightarrow> string"

datatype error =
    MkdirFailed
  | ExportFailed string
  | WriteMetadataFailed
  | MetadataNotFound
  | InvalidMetadata
  | ImportFailed string
  | ReadDirFailed

subsection \<open>System calls\<close>

definition is_file :: "node option \<Rightarrow> bool" where
  "is_file n = (case n of Some (File _) \<Rightarrow> True | _ \<Rightarrow> False)"

text \<open>
  \<^verbatim>\<open>os.MkdirAll\<close>: the directories on the way to the path are made in turn, from
  the top. One that exists is kept. A file in the way, or a directory the system
  refuses to make (\<open>mkdir_fails\<close>, asked for that directory), ends the call with an
  error; the directories made before it stay, for nothing is rolled back. \<open>True\<close> in
  the first component of \<open>mkdir_each\<close> is a failure.
\<close>

definition nonempty_prefixes :: "path \<Rightarrow> path list" where
  "nonempty_prefixes p = map (\<lambda>k. take k p) [1..<Suc (length p)]"

fun mkdir_each :: "env \<Rightarrow> path list \<Rightarrow> filesystem \<Rightarrow> bool \<times> filesystem" where
  "mkdir_each e [] fsys = (False, fsys)"
| "mkdir_each e (q # qs) fsys =
     (case node_at fsys q of
        Some Dir \<Rightarrow> mkdir_each e qs fsys
      | Some (File c) \<Rightarrow> (True, fsys)
      | None \<Rightarrow>
          if mkdir_fails e q then (True, fsys) else mkdir_each e qs (fs_put fsys q Dir))"

definition os_MkdirAll :: "env \<Rightarrow> path \<Rightarrow> world \<Rightarrow> error option \<times> world" where
  "os_MkdirAll e p w =
     (case mkdir_each e (nonempty_prefixes p) (fs w) of
        (True, fsys) \<Rightarrow> (Some MkdirFailed, w\<lparr>fs := fsys\<rparr>)
      | (False, fsys) \<Rightarrow> (None, w\<lparr>fs := fsys\<rparr>))"

text \<open>\<^verbatim>\<open>os.ReadFile\<close>: \<open>None\<close> when there is no file at the path.\<close>

definition os_ReadFile :: "world \<Rightarrow> path \<Rightarrow> content option" where
  "os_ReadFile w p = (case node_at (fs w) p of Some (File c) \<Rightarrow> Some c | _ \<Rightarrow> None)"

text \<open>
  \<^verbatim>\<open>os.WriteFile\<close>: needs an existing parent directory and a target that is not a
  directory; \<open>True\<close> in the first component is a failure.
\<close>

definition os_WriteFile :: "env \<Rightarrow> path \<Rightarrow> content \<Rightarrow> world \<Rightarrow> bool \<times> world" where
  "os_WriteFile e p c w =
     (if write_fails e p \<or> p = [] \<or> node_at (fs w) p = Some Dir
         \<or> node_at (fs w) (butlast p) \<noteq> Some Dir
      then (True, w)
      else (False, w\<lparr>fs := fs_put (fs w) p (File c)\<rparr>))"

text \<open>
  \<^verbatim>\<open>os.RemoveAll\<close>: removes the path and everything below it; a path that does not
  exist is not an error. \<open>True\<close> in the first component is a failure, taken to leave
  the file system as it was.
\<close>

definition os_RemoveAll :: "env \<Rightarrow> path \<Rightarrow> world \<Rightarrow> bool \<times> world" where
  "os_RemoveAll e p w =
     (if remove_fails e p then (True, w)
      else (False, w\<lparr>fs := filter (\<lambda>(q, _). \<not> prefix p q) (fs w)\<rparr>))"

text \<open>
  \<^verbatim>\<open>os.Stat\<close> answering "does not exist": nothing is at the path and no prefix of
  the path is a file.
\<close>

definition stat_not_exist :: "world \<Rightarrow> path \<Rightarrow> bool" where
  "stat_not_exist w p =
     (node_at (fs w) p = None \<and> \<not> list_ex (\<lambda>q. is_file (node_at (fs w) q)) (nonempty_prefixes p))"

text \<open>
  \<^verbatim>\<open>os.ReadDir\<close>: the entries of a directory, sorted by name, each with its
  \<^verbatim>\<open>IsDir\<close> flag; \<open>None\<close> when the path is not a directory.
\<close>

definition child_names :: "filesystem \<Rightarrow> path \<Rightarrow> string list" where
  "child_names fsys p =
     sort (remdups (map (\<lambda>(q, _). last q)
                        (filter (\<lambda>(q, _). q \<noteq> [] \<and> butlast q = p \<and> map_of fsys q \<noteq> None) fsys)))"

definition os_ReadDir :: "world \<Rightarrow> path \<Rightarrow> (string \<times> bool) list option" where
  "os_ReadDir w p =
     (if node_at (fs w) p = Some Dir
      then Some (map (\<lambda>n. (n, node_at (fs w) (p @ [n]) = Some Dir)) (child_names (fs w) p))
      else None)"

subsection \<open>Container runtime (package docker)\<close>

text \<open>
  \<^verbatim>\<open>StopContainers\<close> and \<^verbatim>\<open>StartContainers\<close> run one command for every volume
  with a container name and ignore the result; they never fail.
\<close>

definition container_names :: "Volume list \<Rightarrow> string list" where
  "container_names volumes = map ContainerName (filter (\<lambda>v. ContainerName v \<noteq> []) volumes)"

definition StopContainers :: "Volume list \<Rightarrow> world \<Rightarrow> world" where
  "StopContainers volumes w = w\<lparr>trace := trace w @ [EvStop (container_names volumes)]\<rparr>"

definition StartContainers :: "Volume list \<Rightarrow> world \<Rightarrow> world" where
  "StartContainers volumes w = w\<lparr>trace := trace w @ [EvStart (container_names volumes)]\<rparr>"

text \<open>\<^verbatim>\<open>ExportVolume\<close>: packs the data of the volume into a file at \<open>destPath\<close>.\<close>

definition ExportVolume :: "env \<Rightarrow> Volume \<Rightarrow> path \<Rightarrow> world \<Rightarrow> bool \<times> world" where
  "ExportVolume e volume destPath w =
     (let w' = w\<lparr>trace := trace w @ [EvExport (Name volume) destPath]\<rparr> in
      case export_outcome e w volume destPath of
        Done \<Rightarrow> (False, w'\<lparr>fs := fs_put (fs w) destPath (File (Archive (vols w (Name volume))))\<rparr>)
      | FailedClean \<Rightarrow> (True, w')
      | FailedPartial \<Rightarrow> (True, w'\<lparr>fs := fs_put (fs w) destPath (File Other)\<rparr>))"

text \<open>
  \<^verbatim>\<open>ImportVolume\<close>: clears the volume (result ignored), then unpacks the archive
  into it. It fails when the file at \<open>srcPath\<close> is not an archive.
\<close>

definition ImportVolume :: "env \<Rightarrow> path \<Rightarrow> Volume \<Rightarrow> world \<Rightarrow> bool \<times> world" where
  "ImportVolume e srcPath volume w =
     (let w' = w\<lparr>trace := trace w @ [EvImport srcPath (Name volume)]\<rparr> in
      case import_outcome e w srcPath volume of
        Done \<Rightarrow>
          (case os_ReadFile w srcPath of
             Some (Archive d) \<Rightarrow> (False, w'\<lparr>vols := (vols w)(Name volume := d)\<rparr>)
           | _ \<Rightarrow> (True, w'\<lparr>vols := (vols w)(Name volume := [])\<rparr>))
      | FailedClean \<Rightarrow> (True, w')
      | FailedPartial \<Rightarrow> (True, w'\<lparr>vols := (vols w)(Name volume := [])\<rparr>))"

section \<open>Snapshot manager (package snapshot)\<close>

text \<open>
  \<^verbatim>\<open>sanitizeName\<close>: the nine unsafe bytes \<open>/ \ : * ? " < > |\<close> (47, 92, 58, 42, 63,
  34, 60, 62, 124), each replaced by an underscore in turn.
\<close>

definition unsafe_chars :: "char list" where
  "unsafe_chars =
     [CHR ''/'', CHR 0x5C, CHR '':'', CHR ''*'', CHR ''?'', CHR 0x22, CHR ''<'', CHR ''>'',
      CHR ''|'']"

definition sanitizeName :: "string \<Rightarrow> string" where
  "sanitizeName name = foldl (\<lambda>result c. replaceAll result c CHR ''_'') name unsafe_chars"

definition archive_path :: "path \<Rightarrow> Volume \<Rightarrow> path" where
  "archive_path snapshotDir vol = join snapshotDir (sanitizeName (Name vol) @ ''.tar.gz'')"

record CreateOptions =
  OptTags :: "string list"
  OptDescription :: string
  OptMetadata :: "(string \<times> string) list"
  OptIncremental :: bool
  OptParentName :: string

definition no_options :: CreateOptions where
  "no_options = \<lparr>OptTags = [], OptDescription = [], OptMetadata = [], OptIncremental = False,
                  OptParentName = []\<rparr>"

text \<open>
  The export loop of \<^verbatim>\<open>CreateWithOptions\<close>: the first failed export returns at once;
  after a successful one the size of the archive is read (and skipped when
  \<^verbatim>\<open>os.Stat\<close> fails). Sizes are \<open>int\<close>: a sum of file sizes stays far below
  \<open>2 ^ 63\<close>.
\<close>

fun export_loop ::
  "env \<Rightarrow> path \<Rightarrow> Volume list \<Rightarrow> int \<Rightarrow> Volume list \<Rightarrow> world
     \<Rightarrow> (error + int \<times> Volume list) \<times> world" where
  "export_loop e snapshotDir [] totalSize snapshotVolumes w =
     (Inr (totalSize, snapshotVolumes), w)"
| "export_loop e snapshotDir (vol # rest) totalSize snapshotVolumes w =
     (let tarPath = archive_path snapshotDir vol in
      case ExportVolume e vol tarPath w of
        (True, w1) \<Rightarrow> (Inl (ExportFailed (Name vol)), w1)
      | (False, w1) \<Rightarrow>
          (case node_at (fs w1) tarPath of
             None \<Rightarrow> export_loop e snapshotDir rest totalSize (snapshotVolumes @ [vol]) w1
           | Some n \<Rightarrow>
               export_loop e snapshotDir rest (totalSize + stat_size e n)
                 (snapshotVolumes @ [vol\<lparr>SizeBytes := stat_size e n\<rparr>]) w1))"

text \<open>
  \<^verbatim>\<open>CreateWithOptions\<close>. The deferred \<^verbatim>\<open>StartContainers\<close> runs on every return
  that follows the \<^verbatim>\<open>defer\<close> statement, after the result has been computed.
  Encoding the record (\<^verbatim>\<open>yaml.Marshal\<close>) does not fail.
\<close>

definition CreateWithOptions ::
  "env \<Rightarrow> Config \<Rightarrow> string \<Rightarrow> Volume list \<Rightarrow> CreateOptions \<Rightarrow> world
     \<Rightarrow> (error + Snapshot) \<times> world" where
  "CreateWithOptions e cfg name volumes opts w =
     (let snapshotDir = join (SnapshotDir cfg) name in
      case os_MkdirAll e snapshotDir w of
        (Some err, w1) \<Rightarrow> (Inl err, w1)
      | (None, w1) \<Rightarrow>
          (let w2 = StopContainers volumes w1;
               (result, w4) =
                 (case export_loop e snapshotDir volumes 0 [] w2 of
                    (Inl err, w3) \<Rightarrow> (Inl err, w3)
                  | (Inr (totalSize, snapshotVolumes), w3) \<Rightarrow>
                      (let allTags = DefaultTags cfg @ OptTags opts;
                           snapshot = \<lparr>SName = name, Timestamp = clock w3,
                                       SVolumes = snapshotVolumes, STotalBytes = totalSize,
                                       SPath = snapshotDir, Tags = allTags,
                                       Description = OptDescription opts,
                                       Metadata = OptMetadata opts,
                                       ParentName = OptParentName opts,
                                       Incremental = OptIncremental opts\<rparr>;
                           metadataPath = join snapshotDir ''metadata.yaml''
                       in case os_WriteFile e metadataPath (Meta snapshot) w3 of
                            (True, w') \<Rightarrow> (Inl WriteMetadataFailed, w')
                          | (False, w') \<Rightarrow> (Inr snapshot, w')))
           in (result, StartContainers volumes w4)))"

definition Create ::
  "env \<Rightarrow> Config \<Rightarrow> string \<Rightarrow> Volume list \<Rightarrow> world \<Rightarrow> (error + Snapshot) \<times> world" where
  "Create e cfg name volumes w = CreateWithOptions e cfg name volumes no_options w"

text \<open>\<^verbatim>\<open>loadMetadata\<close>: the stored path is replaced by the directory read from.\<close>

definition loadMetadata :: "world \<Rightarrow> path \<Rightarrow> error + Snapshot" where
  "loadMetadata w snapshotDir =
     (let metadataPath = join snapshotDir ''metadata.yaml'' in
      case os_ReadFile w metadataPath of
        None \<Rightarrow> Inl MetadataNotFound
      | Some (Meta snapshot) \<Rightarrow> Inr (snapshot\<lparr>SPath := snapshotDir\<rparr>)
      | Some _ \<Rightarrow> Inl InvalidMetadata)"

text \<open>The import loop of \<^verbatim>\<open>Restore\<close>.\<close>

fun import_loop :: "env \<Rightarrow> path \<Rightarrow> Volume list \<Rightarrow> world \<Rightarrow> error option \<times> world" where
  "import_loop e snapshotDir [] w = (None, w)"
| "import_loop e snapshotDir (vol # rest) w =
     (let tarPath = archive_path snapshotDir vol in
      case ImportVolume e tarPath vol w of
        (True, w1) \<Rightarrow> (Some (ImportFailed (Name vol)), w1)
      | (False, w1) \<Rightarrow> import_loop e snapshotDir rest w1)"

text \<open>
  \<^verbatim>\<open>Restore\<close>. The result of the backup \<^verbatim>\<open>Create\<close> is dropped; only its effect on the
  world stays.
\<close>

definition backup_name :: "env \<Rightarrow> world \<Rightarrow> string" where
  "backup_name e w = ''_pre-restore-'' @ format_time e (clock w)"

definition Restore :: "env \<Rightarrow> Config \<Rightarrow> string \<Rightarrow> world \<Rightarrow> error option \<times> world" where
  "Restore e cfg name w =
     (let snapshotDir = join (SnapshotDir cfg) name in
      case loadMetadata w snapshotDir of
        Inl err \<Rightarrow> (Some err, w)
      | Inr snapshot \<Rightarrow>
          (let w1 = (if BackupBeforeRestore cfg
                     then snd (Create e cfg (backup_name e w) (SVolumes snapshot) w)
                     else w);
               w2 = StopContainers (SVolumes snapshot) w1;
               (result, w3) = import_loop e snapshotDir (SVolumes snapshot) w2
           in (result, StartContainers (SVolumes snapshot) w3)))"

text \<open>
  \<^verbatim>\<open>sort.Slice\<close> with the comparison "is after": the insertion sort Go runs on short
  slices, which moves each element left past the older ones. On longer slices Go
  sorts by another method; the result is again sorted and a permutation, and only the
  order of equal timestamps may differ.
\<close>

definition sort_newest_first :: "Snapshot list \<Rightarrow> Snapshot list" where
  "sort_newest_first snapshots = rev (sort_key Timestamp (rev snapshots))"

text \<open>The loop of \<^verbatim>\<open>List\<close> over the directory entries.\<close>

fun list_loop :: "world \<Rightarrow> path \<Rightarrow> (string \<times> bool) list \<Rightarrow> Snapshot list \<Rightarrow> Snapshot list" where
  "list_loop w root [] snapshots = snapshots"
| "list_loop w root ((entryName, isDir) # entries) snapshots =
     (if \<not> isDir then list_loop w root entries snapshots
      else case loadMetadata w (join root entryName) of
             Inl err \<Rightarrow> list_loop w root entries snapshots
           | Inr snapshot \<Rightarrow> list_loop w root entries (snapshots @ [snapshot]))"

definition List :: "Config \<Rightarrow> world \<Rightarrow> error + Snapshot list" where
  "List cfg w =
     (if stat_not_exist w (SnapshotDir cfg) then Inr []
      else case os_ReadDir w (SnapshotDir cfg) of
             None \<Rightarrow> Inl ReadDirFailed
           | Some entries \<Rightarrow> Inr (sort_newest_first (list_loop w (SnapshotDir cfg) entries [])))"

definition Get :: "Config \<Rightarrow> string \<Rightarrow> world \<Rightarrow> error + Snapshot" where
  "Get cfg name w = loadMetadata w (join (SnapshotDir cfg) name)"

definition Delete :: "env \<Rightarrow> Config \<Rightarrow> string \<Rightarrow> world \<Rightarrow> bool \<times> world" where
  "Delete e cfg name w = os_RemoveAll e (join (SnapshotDir cfg) name) w"

definition saveMetadata :: "env \<Rightarrow> Snapshot \<Rightarrow> world \<Rightarrow> error option \<times> world" where
  "saveMetadata e snapshot w =
     (let metadataPath = join (SPath snapshot) ''metadata.yaml'' in
      case os_WriteFile e metadataPath (Meta snapshot) w of
        (True, w') \<Rightarrow> (Some WriteMetadataFailed, w')
      | (False, w') \<Rightarrow> (None, w'))"

text \<open>The loop of \<^verbatim>\<open>AddTag\<close> that looks for the tag.\<close>

fun has_tag :: "string list \<Rightarrow> string \<Rightarrow> bool" where
  "has_tag [] tag = False"
| "has_tag (t # ts) tag = (if t = tag then True else has_tag ts tag)"

definition AddTag :: "env \<Rightarrow> Config \<Rightarrow> string \<Rightarrow> string \<Rightarrow> world \<Rightarrow> error option \<times> world" where
  "AddTag e cfg name tag w =
     (case Get cfg name w of
        Inl err \<Rightarrow> (Some err, w)
      | Inr snapshot \<Rightarrow>
          if has_tag (Tags snapshot) tag then (None, w)
          else saveMetadata e (snapshot\<lparr>Tags := Tags snapshot @ [tag]\<rparr>) w)"

text \<open>
  \<^verbatim>\<open>CleanupOldSnapshots\<close>. \<^verbatim>\<open>AddDate(0, 0, -days)\<close> moves an instant back by whole
  days (of 24 hours, in a zone without clock changes).
\<close>

definition nanos_per_day :: int where
  "nanos_per_day = 86400 * 1000000000"

definition addDays :: "int \<Rightarrow> int \<Rightarrow> int" where
  "addDays t days = t + days * nanos_per_day"

fun cleanup_loop ::
  "env \<Rightarrow> Config \<Rightarrow> int \<Rightarrow> Snapshot list \<Rightarrow> string list \<Rightarrow> world \<Rightarrow> string list \<times> world" where
  "cleanup_loop e cfg cutoff [] deleted w = (deleted, w)"
| "cleanup_loop e cfg cutoff (s # rest) deleted w =
     (if hasPrefix (SName s) ''_'' then cleanup_loop e cfg cutoff rest deleted w
      else if Timestamp s < cutoff then
        (case Delete e cfg (SName s) w of
           (False, w') \<Rightarrow> cleanup_loop e cfg cutoff rest (deleted @ [SName s]) w'
         | (True, w') \<Rightarrow> cleanup_loop e cfg cutoff rest deleted w')
      else cleanup_loop e cfg cutoff rest deleted w)"

definition CleanupOldSnapshots :: "env \<Rightarrow> Config \<Rightarrow> world \<Rightarrow> (error + string list) \<times> world" where
  "CleanupOldSnapshots e cfg w =
     (if RetentionDays cfg \<le> 0 then (Inr [], w)
      else let cutoff = addDays (clock w) (- RetentionDays cfg) in
        case List cfg w of
          Inl err \<Rightarrow> (Inl err, w)
        | Inr snapshots \<Rightarrow>
            (case cleanup_loop e cfg cutoff snapshots [] w of
               (deleted, w') \<Rightarrow> (Inr deleted, w')))"

section \<open>Notions used to state the properties\<close>

text \<open>
  A file name is a single path element: not empty, not \<open>.\<close> or \<open>..\<close>, and without a
  slash. In a file system every element of every location is a file name.
\<close>

definition valid_name :: "string \<Rightarrow> bool" where
  "valid_name n = (n \<noteq> [] \<and> n \<noteq> ''.'' \<and> n \<noteq> ''..'' \<and> CHR ''/'' \<notin> set n)"

definition valid_fs :: "filesystem \<Rightarrow> bool" where
  "valid_fs fsys = list_all (\<lambda>(q, _). list_all valid_name q) fsys"

text \<open>
  The records of the snapshot root: for every entry \<open>n\<close> of the root that is a
  directory and holds a file \<open>metadata.yaml\<close> that decodes to a record, that record,
  with the directory as its path.
\<close>

definition entry_records :: "world \<Rightarrow> path \<Rightarrow> string \<Rightarrow> Snapshot list" where
  "entry_records w root n =
     (if node_at (fs w) (root @ [n]) = Some Dir
      then (case node_at (fs w) (root @ [n, ''metadata.yaml'']) of
              Some (File (Meta r)) \<Rightarrow> [r\<lparr>SPath := root @ [n]\<rparr>]
            | _ \<Rightarrow> [])
      else [])"

definition readable_records :: "world \<Rightarrow> path \<Rightarrow> Snapshot list" where
  "readable_records w root = concat (map (entry_records w root) (child_names (fs w) root))"

text \<open>What one round of the loop of \<^verbatim>\<open>List\<close> adds for a directory entry.\<close>

definition load_entry :: "world \<Rightarrow> path \<Rightarrow> string \<times> bool \<Rightarrow> Snapshot list" where
  "load_entry w root entry =
     (if snd entry
      then (case loadMetadata w (join root (fst entry)) of Inl _ \<Rightarrow> [] | Inr s \<Rightarrow> [s])
      else [])"

text \<open>
  Ordered keyword tables: the first group with a keyword that occurs in the string
  gives the kind. \<open>image_keyword_groups\<close> is the order the specification names
  (postgres, mysql/mariadb, redis, mongo, neo4j); \<open>mount_keyword_groups\<close> holds the
  keywords the source tests the mount path for.
\<close>

fun first_match :: "(string list \<times> DatastoreType) list \<Rightarrow> string \<Rightarrow> DatastoreType option" where
  "first_match [] s = None"
| "first_match ((keywords, kind) # groups) s =
     (if list_ex (str_contains s) keywords then Some kind else first_match groups s)"

definition image_keyword_groups :: "(string list \<times> DatastoreType) list" where
  "image_keyword_groups =
     [([''postgres''], DatastorePostgres),
      ([''mysql'', ''mariadb''], DatastoreMySQL),
      ([''redis''], DatastoreRedis),
      ([''mongo''], DatastoreMongoDB),
      ([''neo4j''], DatastoreNeo4j)]"

definition mount_keyword_groups :: "(string list \<times> DatastoreType) list" where
  "mount_keyword_groups =
     [([''postgresql'', ''pgdata''], DatastorePostgres),
      ([''mysql''], DatastoreMySQL),
      ([''redis''], DatastoreRedis),
      ([''mongo''], DatastoreMongoDB),
      ([''neo4j''], DatastoreNeo4j)]"

text \<open>
  The classifier as the specification words it: the mount path is matched against
  the same ordered keyword groups as the image.
\<close>

definition spec_classify :: "string \<Rightarrow> string \<Rightarrow> DatastoreType \<Rightarrow> DatastoreType" where
  "spec_classify img mountPath hint =
     (if hint \<noteq> [] then hint
      else case first_match image_keyword_groups (toLower img) of
             Some kind \<Rightarrow> kind
           | None \<Rightarrow> (case first_match image_keyword_groups mountPath of
                        Some kind \<Rightarrow> kind
                      | None \<Rightarrow> DatastoreGeneric))"

text \<open>
  The runtime calls of one export and of one import, and the world \<^verbatim>\<open>Restore\<close> goes on
  from once the backup has been attempted (whatever its result).
\<close>

definition export_event :: "path \<Rightarrow> Volume \<Rightarrow> event" where
  "export_event d v = EvExport (Name v) (archive_path d v)"

definition import_event :: "path \<Rightarrow> Volume \<Rightarrow> event" where
  "import_event d v = EvImport (archive_path d v) (Name v)"

definition after_backup :: "env \<Rightarrow> Config \<Rightarrow> Volume list \<Rightarrow> world \<Rightarrow> world" where
  "after_backup e cfg volumes w =
     (if BackupBeforeRestore cfg then snd (Create e cfg (backup_name e w) volumes w) else w)"

text \<open>
  Notions for the detector. The reference of a mount entry is the part before the
  first colon, its target the part after it. A reference is path-like (a bind mount)
  when it starts with a dot or a slash. A reference is declared when the manifest has
  no volumes section or the section has it as a key. A mount entry of a valid manifest
  has the form \<open>reference:mountPath[:mode]\<close>, or is a bare container path.
  \<open>volume_of\<close> is the volume a surviving mount entry stands for, and \<open>emitted\<close> the
  volumes of the surviving mount entries of one service, in their order.
\<close>

definition mount_reference :: "string \<Rightarrow> string" where
  "mount_reference m = hd (split_on CHR '':'' m)"

definition mount_target :: "string \<Rightarrow> string" where
  "mount_target m = split_on CHR '':'' m ! 1"

definition is_bind :: "string \<Rightarrow> bool" where
  "is_bind r = (hasPrefix r ''.'' \<or> hasPrefix r ''/'')"

definition declared :: "ComposeConfig \<Rightarrow> string \<Rightarrow> bool" where
  "declared compose r =
     (case DeclaredVolumes compose of None \<Rightarrow> True | Some ds \<Rightarrow> r \<in> set ds)"

definition passes_filters :: "Config \<Rightarrow> string \<Rightarrow> bool" where
  "passes_filters cfg r =
     ((IncludeVolumes cfg = [] \<or> r \<in> set (IncludeVolumes cfg)) \<and> r \<notin> set (ExcludeVolumes cfg))"

definition survives :: "Config \<Rightarrow> ComposeConfig \<Rightarrow> string \<Rightarrow> bool" where
  "survives cfg compose m =
     (\<not> is_bind (mount_reference m) \<and> declared compose (mount_reference m)
      \<and> passes_filters cfg (mount_reference m))"

definition valid_mount :: "string \<Rightarrow> bool" where
  "valid_mount m = (2 \<le> length (split_on CHR '':'' m) \<or> hasPrefix m ''/'')"

definition valid_manifest :: "ComposeConfig \<Rightarrow> bool" where
  "valid_manifest compose =
     list_all (\<lambda>entry. list_all valid_mount (Mounts (snd entry))) (Services compose)"

definition volume_of :: "Config \<Rightarrow> string \<Rightarrow> ComposeService \<Rightarrow> string \<Rightarrow> Volume" where
  "volume_of cfg projectName service m =
     \<lparr>Name = projectName @ ''_'' @ mount_reference m,
      DatastoreType =
        inferDatastoreType (Image service) (mount_target m) (hint_for cfg (mount_reference m)),
      ContainerName = SContainerName service,
      MountPath = mount_target m,
      ImageName = Image service,
      SizeBytes = 0\<rparr>"

definition emitted :: "Config \<Rightarrow> string \<Rightarrow> ComposeConfig \<Rightarrow> string \<times> ComposeService \<Rightarrow> Volume list" where
  "emitted cfg pn compose entry =
     map (volume_of cfg pn (snd entry)) (filter (survives cfg compose) (Mounts (snd entry)))"

text \<open>
  Notions for the retention sweep. A snapshot is eligible when its name lacks the
  marker prefix and its timestamp is strictly before the cutoff; it is removable when
  it is eligible and the removal of the directory called by its name does not fail.
  In a catalog whose names match, every record carries the name of the directory it
  lies in, as \<open>Create\<close> writes it.
\<close>

definition eligible :: "int \<Rightarrow> Snapshot \<Rightarrow> bool" where
  "eligible cutoff s = (\<not> hasPrefix (SName s) ''_'' \<and> Timestamp s < cutoff)"

definition removable :: "env \<Rightarrow> Config \<Rightarrow> int \<Rightarrow> Snapshot \<Rightarrow> bool" where
  "removable e cfg cutoff s =
     (eligible cutoff s \<and> \<not> remove_fails e (join (SnapshotDir cfg) (SName s)))"

definition names_match :: "world \<Rightarrow> path \<Rightarrow> bool" where
  "names_match w root =
     list_all (\<lambda>n. list_all (\<lambda>s. SName s = n) (entry_records w root n)) (child_names (fs w) root)"

subsection \<open>Sample inputs\<close>

definition sample_config :: Config where
  "sample_config =
     \<lparr>ComposeFile = [], IncludeVolumes = [], ExcludeVolumes = [], DatastoreHints = [],
      SnapshotDir = [''proj'', ''.dataclean''], BackupBeforeRestore = False,
      DefaultTags = [''nightly''], RetentionDays = 7\<rparr>"

definition sample_record :: "string \<Rightarrow> int \<Rightarrow> Snapshot" where
  "sample_record n t =
     \<lparr>SName = n, Timestamp = t, SVolumes = [], STotalBytes = 0, SPath = [''elsewhere''],
      Tags = [], Description = [], Metadata = [], ParentName = [], Incremental = False\<rparr>"

text \<open>
  A snapshot root with two directories that hold a record, one directory without a
  record, one directory with a file that is no record, and one plain file.
\<close>

definition sample_world :: world where
  "sample_world =
     \<lparr>fs = [([''proj''], Dir),
            ([''proj'', ''.dataclean''], Dir),
            ([''proj'', ''.dataclean'', ''first''], Dir),
            ([''proj'', ''.dataclean'', ''first'', ''metadata.yaml''],
               File (Meta (sample_record ''first'' 10))),
            ([''proj'', ''.dataclean'', ''second''], Dir),
            ([''proj'', ''.dataclean'', ''second'', ''metadata.yaml''],
               File (Meta (sample_record ''second'' 20))),
            ([''proj'', ''.dataclean'', ''empty''], Dir),
            ([''proj'', ''.dataclean'', ''broken''], Dir),
            ([''proj'', ''.dataclean'', ''broken'', ''metadata.yaml''], File Other),
            ([''proj'', ''.dataclean'', ''somefile.txt''], File Other)],
      vols = (\<lambda>_. []), clock = 100, trace = []\<rparr>"

text \<open>An environment in which nothing fails, and two volumes.\<close>

definition sample_env :: env where
  "sample_env =
     \<lparr>mkdir_fails = (\<lambda>_. False), write_fails = (\<lambda>_. False), remove_fails = (\<lambda>_. False),
      export_outcome = (\<lambda>_ _ _. Done), import_outcome = (\<lambda>_ _ _. Done),
      stat_size = (\<lambda>_. 1024), format_time = (\<lambda>_. ''20240115-103000'')\<rparr>"

definition sample_volume :: "string \<Rightarrow> string \<Rightarrow> Volume" where
  "sample_volume n c =
     \<lparr>Name = n, DatastoreType = DatastoreGeneric, ContainerName = c, MountPath = ''/data'',
      ImageName = ''alpine'', SizeBytes = 0\<rparr>"

definition pg_volume :: Volume where
  "pg_volume = sample_volume ''proj_pgdata'' ''proj-db-1''"

definition redis_volume :: Volume where
  "redis_volume = sample_volume ''proj_redis'' ''proj-cache-1''"

text \<open>
  Environments in which one thing fails: every directory creation, the export of the
  first sample volume, the import of the first sample volume.
\<close>

definition no_mkdir :: env where
  "no_mkdir = sample_env\<lparr>mkdir_fails := (\<lambda>_. True)\<rparr>"

definition pg_export_fails :: env where
  "pg_export_fails =
     sample_env\<lparr>export_outcome :=
                   (\<lambda>w v p. if Name v = ''proj_pgdata'' then FailedPartial else Done)\<rparr>"

definition pg_import_fails :: env where
  "pg_import_fails =
     sample_env\<lparr>import_outcome :=
                   (\<lambda>w p v. if Name v = ''proj_pgdata'' then FailedClean else Done)\<rparr>"

text \<open>A snapshot root with one complete snapshot of the two sample volumes.\<close>

definition backup_config :: Config where
  "backup_config = sample_config\<lparr>BackupBeforeRestore := True\<rparr>"

definition nightly_record :: Snapshot where
  "nightly_record = (sample_record ''nightly'' 30)\<lparr>SVolumes := [pg_volume, redis_volume]\<rparr>"

definition restore_world :: world where
  "restore_world =
     \<lparr>fs = [([''proj''], Dir),
            ([''proj'', ''.dataclean''], Dir),
            ([''proj'', ''.dataclean'', ''nightly''], Dir),
            ([''proj'', ''.dataclean'', ''nightly'', ''metadata.yaml''],
               File (Meta nightly_record)),
            ([''proj'', ''.dataclean'', ''nightly'', ''proj_pgdata.tar.gz''],
               File (Archive ''rows'')),
            ([''proj'', ''.dataclean'', ''nightly'', ''proj_redis.tar.gz''],
               File (Archive ''keys''))],
      vols = (\<lambda>_. ''live''), clock = 100, trace = []\<rparr>"

text \<open>Options that repeat the default tag of the sample configuration.\<close>

definition tagged_options :: CreateOptions where
  "tagged_options = no_options\<lparr>OptTags := [''nightly'']\<rparr>"

text \<open>
  A manifest with three services, two of which mount the same named volume; the
  second manifest is the same map, visited in the opposite order.
\<close>

definition db_service :: ComposeService where
  "db_service =
     \<lparr>Image = ''postgres:15'', SContainerName = ''proj-db-1'',
      Mounts = [''pgdata:/var/lib/postgresql/data'',
                ''./init.sql:/docker-entrypoint-initdb.d/init.sql:ro'',
                ''/var/run/postgresql'']\<rparr>"

definition cache_service :: ComposeService where
  "cache_service =
     \<lparr>Image = ''redis:7'', SContainerName = ''proj-cache-1'', Mounts = [''redisdata:/data'']\<rparr>"

definition worker_service :: ComposeService where
  "worker_service =
     \<lparr>Image = ''alpine'', SContainerName = ''proj-worker-1'', Mounts = [''pgdata:/backup:ro'']\<rparr>"

definition sample_manifest :: "string list option \<Rightarrow> ComposeConfig" where
  "sample_manifest decl =
     \<lparr>Services = [(''db'', db_service), (''cache'', cache_service), (''worker'', worker_service)],
      DeclaredVolumes = decl\<rparr>"

definition reordered_manifest :: "string list option \<Rightarrow> ComposeConfig" where
  "reordered_manifest decl =
     \<lparr>Services = [(''worker'', worker_service), (''cache'', cache_service), (''db'', db_service)],
      DeclaredVolumes = decl\<rparr>"

text \<open>
  Two snapshot roots, thirty days after the timestamps of their records. In the first
  the directory \<open>valid-snapshot\<close> holds a record whose name is \<open>valid\<close>. In the second
  an automatic backup lies beside a directory whose record has an empty name.
\<close>

definition thirty_days :: int where
  "thirty_days = 30 * nanos_per_day"

definition renamed_world :: world where
  "renamed_world =
     \<lparr>fs = [([''proj''], Dir),
            ([''proj'', ''.dataclean''], Dir),
            ([''proj'', ''.dataclean'', ''valid-snapshot''], Dir),
            ([''proj'', ''.dataclean'', ''valid-snapshot'', ''metadata.yaml''],
               File (Meta (sample_record ''valid'' 0)))],
      vols = (\<lambda>_. []), clock = thirty_days, trace = []\<rparr>"

definition unnamed_world :: world where
  "unnamed_world =
     \<lparr>fs = [([''proj''], Dir),
            ([''proj'', ''.dataclean''], Dir),
            ([''proj'', ''.dataclean'', ''_pre-restore-20240115-103000''], Dir),
            ([''proj'', ''.dataclean'', ''_pre-restore-20240115-103000'', ''metadata.yaml''],
               File (Meta (sample_record ''_pre-restore-20240115-103000'' 0))),
            ([''proj'', ''.dataclean'', ''stray''], Dir),
            ([''proj'', ''.dataclean'', ''stray'', ''metadata.yaml''],
               File (Meta (sample_record [] 0)))],
      vols = (\<lambda>_. []), clock = thirty_days, trace = []\<rparr>"

section \<open>Properties\<close>

subsection \<open>Paths\<close>

lemma split_on_no_sep: "c \<notin> set s \<Longrightarrow> split_on c s = [s]"
  by (induction s) (auto split: list.splits)

lemma join_valid_name: "valid_name n \<Longrightarrow> join p n = p @ [n]"
  by (simp add: join_def valid_name_def split_on_no_sep path_step_def)

lemma join_metadata: "join d ''metadata.yaml'' = d @ [''metadata.yaml'']"
  by (rule join_valid_name) (simp add: valid_name_def)

lemma sanitizeName_map:
  "sanitizeName s = map (\<lambda>c. if c \<in> set unsafe_chars then CHR ''_'' else c) s"
  by (simp add: sanitizeName_def unsafe_chars_def replaceAll_def)

lemma slash_notin_sanitizeName: "CHR ''/'' \<notin> set (sanitizeName s)"
  by (auto simp: sanitizeName_map unsafe_chars_def)

lemma archive_path_eq: "archive_path d v = d @ [sanitizeName (Name v) @ ''.tar.gz'']"
  unfolding archive_path_def
  by (rule join_valid_name) (auto simp: valid_name_def slash_notin_sanitizeName)

lemma archive_path_neq_metadata: "archive_path d v \<noteq> d @ [''metadata.yaml'']"
proof
  assume "archive_path d v = d @ [''metadata.yaml'']"
  then have "sanitizeName (Name v) @ ''.tar.gz'' = ''metadata.yaml''"
    by (simp add: archive_path_eq)
  then have "last (sanitizeName (Name v) @ ''.tar.gz'') = last ''metadata.yaml''"
    by (rule arg_cong)
  then show False by simp
qed

subsection \<open>Reading the catalog\<close>

lemma loadMetadata_eq:
  "loadMetadata w d =
     (case node_at (fs w) (d @ [''metadata.yaml'']) of
        Some (File (Meta r)) \<Rightarrow> Inr (r\<lparr>SPath := d\<rparr>)
      | Some (File _) \<Rightarrow> Inl InvalidMetadata
      | _ \<Rightarrow> Inl MetadataNotFound)"
  by (simp add: loadMetadata_def join_metadata os_ReadFile_def
      split: option.splits node.splits content.splits)

lemma list_loop_eq:
  "list_loop w root entries acc = acc @ concat (map (load_entry w root) entries)"
  by (induction entries arbitrary: acc) (auto simp: load_entry_def split: sum.splits)

lemma child_names_valid:
  assumes "valid_fs fsys" and "n \<in> set (child_names fsys p)"
  shows "valid_name n"
proof -
  from assms(2) obtain q x where q: "(q, x) \<in> set fsys" "q \<noteq> []" "n = last q"
    by (auto simp: child_names_def)
  from assms(1) q(1) have "list_all valid_name q"
    by (auto simp: valid_fs_def list_all_iff)
  with q(2,3) show ?thesis
    by (simp add: list_all_iff)
qed

lemma load_entry_records:
  assumes "valid_name n"
  shows "load_entry w root (n, node_at (fs w) (root @ [n]) = Some Dir) = entry_records w root n"
  using assms
  by (auto simp: load_entry_def entry_records_def join_valid_name loadMetadata_eq
      split: option.splits node.splits content.splits)

lemma sort_newest_first_sorted:
  "sorted_wrt (\<lambda>a b. Timestamp b \<le> Timestamp a) (sort_newest_first xs)"
proof -
  have "sorted (map Timestamp (sort_key Timestamp (rev xs)))"
    by (rule sorted_sort_key)
  then have "sorted_wrt (\<lambda>a b. Timestamp a \<le> Timestamp b) (sort_key Timestamp (rev xs))"
    by (simp add: sorted_map)
  then show ?thesis
    unfolding sort_newest_first_def by (simp add: sorted_wrt_rev)
qed

lemma sort_newest_first_mset: "mset (sort_newest_first xs) = mset xs"
  by (simp add: sort_newest_first_def)

lemma List_of_directory:
  assumes "node_at (fs w) (SnapshotDir cfg) = Some Dir" and "valid_fs (fs w)"
  shows "List cfg w = Inr (sort_newest_first (readable_records w (SnapshotDir cfg)))"
proof -
  let ?root = "SnapshotDir cfg"
  let ?entries =
    "map (\<lambda>n. (n, node_at (fs w) (?root @ [n]) = Some Dir)) (child_names (fs w) ?root)"
  have "map (load_entry w ?root) ?entries
          = map (entry_records w ?root) (child_names (fs w) ?root)"
    using child_names_valid[OF assms(2)] by (simp add: load_entry_records)
  then have "concat (map (load_entry w ?root) ?entries) = readable_records w ?root"
    unfolding readable_records_def by (rule arg_cong)
  then have loop: "list_loop w ?root ?entries [] = readable_records w ?root"
    by (simp only: list_loop_eq append_Nil)
  have "List cfg w = Inr (sort_newest_first (list_loop w ?root ?entries []))"
    using assms(1) by (simp add: List_def stat_not_exist_def os_ReadDir_def)
  then show ?thesis
    by (simp only: loop)
qed

lemma sample_world_valid: "valid_fs (fs sample_world)"
  by (simp add: sample_world_def valid_fs_def valid_name_def)

lemma sample_root_is_dir: "node_at (fs sample_world) (SnapshotDir sample_config) = Some Dir"
  by (simp add: sample_world_def sample_config_def node_at_def)

text \<open>
  Claim C7. When the snapshot root is a directory, \<open>List\<close> returns without error; the
  list it returns holds exactly the records of the entries of the root that are
  directories with a file \<open>metadata.yaml\<close> that decodes to a record (each with the
  directory it was read from as its path), so that plain files, directories without
  a record and directories with a malformed record contribute nothing; and the list
  is ordered by timestamp, newest first.
\<close>

theorem List_returns_readable_records_newest_first:
  assumes "node_at (fs w) (SnapshotDir cfg) = Some Dir" and "valid_fs (fs w)"
  shows "\<exists>snapshots. List cfg w = Inr snapshots
           \<and> mset snapshots = mset (readable_records w (SnapshotDir cfg))
           \<and> sorted_wrt (\<lambda>a b. Timestamp b \<le> Timestamp a) snapshots"
  using List_of_directory[OF assms]
  by (simp add: sort_newest_first_mset sort_newest_first_sorted)

theorem List_returns_readable_records_newest_first_witness:
  "node_at (fs sample_world) (SnapshotDir sample_config) = Some Dir
   \<and> valid_fs (fs sample_world)
   \<and> map SName (readable_records sample_world (SnapshotDir sample_config))
       = [''first'', ''second'']
   \<and> (\<exists>snapshots. List sample_config sample_world = Inr snapshots
           \<and> mset snapshots = mset (readable_records sample_world (SnapshotDir sample_config))
           \<and> sorted_wrt (\<lambda>a b. Timestamp b \<le> Timestamp a) snapshots)"
proof -
  have "map SName (readable_records sample_world (SnapshotDir sample_config))
          = [''first'', ''second'']"
    by (simp add: readable_records_def entry_records_def child_names_def node_at_def
        sample_world_def sample_config_def sample_record_def)
  then show ?thesis
    using List_returns_readable_records_newest_first[OF sample_root_is_dir sample_world_valid]
      sample_root_is_dir sample_world_valid
    by simp
qed

subsection \<open>The classifier\<close>

text \<open>
  Claim C5, as stated, fails: the mount path is not matched against the keyword
  groups of the image. With no hint and an image that matches nothing, the mount
  path \<open>/data/postgres\<close> contains the image keyword \<open>postgres\<close>, yet the classifier
  answers \<open>generic\<close>, since it looks for \<open>postgresql\<close> or \<open>pgdata\<close> there.
\<close>

theorem inferDatastoreType_mount_keywords_differ:
  "inferDatastoreType ''alpine'' ''/data/postgres'' [] = DatastoreGeneric
   \<and> spec_classify ''alpine'' ''/data/postgres'' [] = DatastorePostgres
   \<and> inferDatastoreType ''alpine'' ''/data/postgres'' []
       \<noteq> spec_classify ''alpine'' ''/data/postgres'' []"
  by (simp add: inferDatastoreType_def spec_classify_def image_keyword_groups_def
      toLower_def lower_char_def hasPrefix_def DatastoreGeneric_def DatastorePostgres_def)

text \<open>
  Claim C5, amended. The classifier is a total function. It returns the hint whenever
  the hint is not empty; otherwise the kind of the first group, in the order postgres,
  mysql/mariadb, redis, mongo, neo4j, with a keyword that occurs in the lower-cased
  image; otherwise the kind of the first group, in the order postgresql/pgdata, mysql,
  redis, mongo, neo4j, with a keyword that occurs in the mount path as it is written;
  and \<open>generic\<close> when nothing matches.
\<close>

theorem inferDatastoreType_precedence:
  "inferDatastoreType img mountPath hint =
     (if hint \<noteq> [] then hint
      else case first_match image_keyword_groups (toLower img) of
             Some kind \<Rightarrow> kind
           | None \<Rightarrow> (case first_match mount_keyword_groups mountPath of
                        Some kind \<Rightarrow> kind
                      | None \<Rightarrow> DatastoreGeneric))"
  by (simp add: inferDatastoreType_def image_keyword_groups_def mount_keyword_groups_def
      Let_def)

theorem inferDatastoreType_precedence_witness:
  "inferDatastoreType ''Postgres:15'' ''/var/lib/mysql'' ''redis'' = ''redis''
   \<and> inferDatastoreType ''Postgres:15'' ''/var/lib/mysql'' [] = DatastorePostgres
   \<and> inferDatastoreType ''bitnami/MariaDB'' ''/data'' [] = DatastoreMySQL
   \<and> inferDatastoreType ''alpine'' ''/var/lib/mysql'' [] = DatastoreMySQL
   \<and> inferDatastoreType ''alpine'' ''/pgdata'' [] = DatastorePostgres
   \<and> inferDatastoreType ''alpine'' ''/var/lib/MySQL'' [] = DatastoreGeneric
   \<and> inferDatastoreType ''alpine'' ''/data'' [] = DatastoreGeneric"
proof -
  have lower: "toLower ''Postgres:15'' = ''postgres:15''"
    "toLower ''bitnami/MariaDB'' = ''bitnami/mariadb''"
    "toLower ''alpine'' = ''alpine''"
    by code_simp+
  show ?thesis
    unfolding inferDatastoreType_precedence
    by (simp add: lower image_keyword_groups_def mount_keyword_groups_def hasPrefix_def
        DatastoreGeneric_def DatastorePostgres_def DatastoreMySQL_def)
qed

subsection \<open>Creating and restoring\<close>

lemma map_of_filter_key:
  "map_of (filter (\<lambda>(k, _). P k) xs) k = (if P k then map_of xs k else None)"
  by (induction xs) auto

lemma node_at_fs_put:
  "node_at (fs_put f p n) q = (if q = [] then Some Dir else if q = p then Some n else node_at f q)"
  using map_of_filter_key[of "\<lambda>k. k \<noteq> p" f q]
  by (simp add: node_at_def fs_put_def)

lemma node_at_root: "node_at f [] = Some Dir"
  by (simp add: node_at_def)

lemma ExportVolume_trace:
  "trace (snd (ExportVolume e v p w)) = trace w @ [EvExport (Name v) p]"
  by (simp add: ExportVolume_def Let_def split: outcome.splits)

lemma ExportVolume_same:
  "vols (snd (ExportVolume e v p w)) = vols w" "clock (snd (ExportVolume e v p w)) = clock w"
  by (simp_all add: ExportVolume_def Let_def split: outcome.splits)

lemma ExportVolume_node:
  "q \<noteq> p \<Longrightarrow> node_at (fs (snd (ExportVolume e v p w))) q = node_at (fs w) q"
  by (simp add: ExportVolume_def Let_def node_at_fs_put node_at_root split: outcome.splits)

lemma ExportVolume_fails:
  "fst (ExportVolume e v p w) = (export_outcome e w v p \<noteq> Done)"
  by (simp add: ExportVolume_def Let_def split: outcome.splits)

lemma export_loop_effects:
  "export_loop e d vs t acc w = (r, w') \<Longrightarrow>
     vols w' = vols w \<and> clock w' = clock w
     \<and> (\<forall>q. (\<forall>v\<in>set vs. q \<noteq> archive_path d v) \<longrightarrow> node_at (fs w') q = node_at (fs w) q)
     \<and> (\<exists>k\<le>length vs. trace w' = trace w @ map (export_event d) (take k vs)
           \<and> (case r of Inl err \<Rightarrow> 0 < k \<and> err = ExportFailed (Name (vs ! (k - 1)))
                        | Inr _ \<Rightarrow> k = length vs))"
proof (induction vs arbitrary: t acc w)
  case Nil
  then show ?case by auto
next
  case (Cons v vs)
  let ?p = "archive_path d v"
  obtain b w1 where ex: "ExportVolume e v ?p w = (b, w1)"
    by (cases "ExportVolume e v ?p w")
  have w1: "trace w1 = trace w @ [export_event d v]" "vols w1 = vols w" "clock w1 = clock w"
    "\<And>q. q \<noteq> ?p \<Longrightarrow> node_at (fs w1) q = node_at (fs w) q"
    using ExportVolume_trace[of e v ?p w] ExportVolume_same[of e v ?p w]
      ExportVolume_node[of _ ?p e v w] ex
    by (simp_all add: export_event_def)
  show ?case
  proof (cases b)
    case True
    with Cons.prems ex have "r = Inl (ExportFailed (Name v))" "w' = w1"
      by (simp_all add: Let_def)
    with w1 show ?thesis
      by (auto intro!: exI[of _ "Suc 0"])
  next
    case False
    with Cons.prems ex obtain t1 acc1 where rec: "export_loop e d vs t1 acc1 w1 = (r, w')"
      by (auto simp: Let_def split: option.splits)
    from Cons.IH[OF rec] obtain k where k: "k \<le> length vs"
      "trace w' = trace w1 @ map (export_event d) (take k vs)"
      "case r of Inl err \<Rightarrow> 0 < k \<and> err = ExportFailed (Name (vs ! (k - 1))) | Inr _ \<Rightarrow> k = length vs"
      and rest: "vols w' = vols w1" "clock w' = clock w1"
      "\<forall>q. (\<forall>v\<in>set vs. q \<noteq> archive_path d v) \<longrightarrow> node_at (fs w') q = node_at (fs w1) q"
      by blast
    have "trace w' = trace w @ map (export_event d) (take (Suc k) (v # vs))"
      using k(2) w1(1) by simp
    moreover have "case r of Inl err \<Rightarrow> 0 < Suc k \<and> err = ExportFailed (Name ((v # vs) ! (Suc k - 1)))
                    | Inr _ \<Rightarrow> Suc k = length (v # vs)"
      using k(3) by (cases r) (auto simp: nth_Cons')
    moreover have "Suc k \<le> length (v # vs)" using k(1) by simp
    ultimately have "\<exists>k\<le>length (v # vs). trace w' = trace w @ map (export_event d) (take k (v # vs))
           \<and> (case r of Inl err \<Rightarrow> 0 < k \<and> err = ExportFailed (Name ((v # vs) ! (k - 1)))
                        | Inr _ \<Rightarrow> k = length (v # vs))"
      by blast
    with rest w1 show ?thesis by auto
  qed
qed

lemma export_loop_append:
  "export_loop e d (xs @ ys) t acc w =
     (case export_loop e d xs t acc w of
        (Inl err, w') \<Rightarrow> (Inl err, w')
      | (Inr (t', acc'), w') \<Rightarrow> export_loop e d ys t' acc' w')"
  by (induction xs arbitrary: t acc w) (auto simp: Let_def split: prod.splits bool.splits option.splits)


lemma mkdir_each_node:
  "q \<notin> set ps \<Longrightarrow> node_at (snd (mkdir_each e ps f0)) q = node_at f0 q"
  by (induction ps arbitrary: f0)
     (auto simp: node_at_fs_put node_at_root split: option.splits node.splits)

lemma longer_not_prefix: "length p < length q \<Longrightarrow> q \<notin> set (nonempty_prefixes p)"
  by (auto simp: nonempty_prefixes_def)

lemma os_MkdirAll_effects:
  assumes "os_MkdirAll e p w = (r, w1)"
  shows "trace w1 = trace w" "vols w1 = vols w" "clock w1 = clock w"
    "length p < length q \<Longrightarrow> node_at (fs w1) q = node_at (fs w) q"
proof -
  obtain b fsys where m: "mkdir_each e (nonempty_prefixes p) (fs w) = (b, fsys)"
    by (cases "mkdir_each e (nonempty_prefixes p) (fs w)")
  with assms have w1: "w1 = w\<lparr>fs := fsys\<rparr>"
    by (cases b) (simp_all add: os_MkdirAll_def)
  then show "trace w1 = trace w" "vols w1 = vols w" "clock w1 = clock w"
    by simp_all
  assume "length p < length q"
  then have "node_at (snd (mkdir_each e (nonempty_prefixes p) (fs w))) q = node_at (fs w) q"
    by (intro mkdir_each_node longer_not_prefix)
  with m w1 show "node_at (fs w1) q = node_at (fs w) q"
    by simp
qed

lemma Get_eq_node:
  "node_at (fs w') (join (SnapshotDir cfg) name @ [''metadata.yaml''])
     = node_at (fs w) (join (SnapshotDir cfg) name @ [''metadata.yaml''])
   \<Longrightarrow> Get cfg name w' = Get cfg name w"
  by (simp add: Get_def loadMetadata_def os_ReadFile_def join_metadata)

lemma CreateWithOptions_after_mkdir:
  assumes "os_MkdirAll e (join (SnapshotDir cfg) name) w = (None, w1)"
    and "export_loop e (join (SnapshotDir cfg) name) volumes 0 [] (StopContainers volumes w1) = (Inl err, w3)"
  shows "CreateWithOptions e cfg name volumes opts w = (Inl err, StartContainers volumes w3)"
  using assms by (simp add: CreateWithOptions_def Let_def)

lemma export_loop_first_failure:
  assumes k: "k < length vs"
    and pre: "export_loop e d (take k vs) t acc w = (Inr x, wk)"
    and fail: "fst (ExportVolume e (vs ! k) (archive_path d (vs ! k)) wk)"
  shows "export_loop e d vs t acc w
           = (Inl (ExportFailed (Name (vs ! k))),
              snd (ExportVolume e (vs ! k) (archive_path d (vs ! k)) wk))"
proof -
  have split: "vs = take k vs @ (vs ! k) # drop (Suc k) vs"
    using k by (simp add: id_take_nth_drop)
  obtain b w' where ex: "ExportVolume e (vs ! k) (archive_path d (vs ! k)) wk = (b, w')"
    by (cases "ExportVolume e (vs ! k) (archive_path d (vs ! k)) wk")
  with fail have b by simp
  have "export_loop e d (take k vs @ (vs ! k) # drop (Suc k) vs) t acc w
          = (Inl (ExportFailed (Name (vs ! k))), w')"
    using pre ex \<open>b\<close> by (cases x) (simp add: export_loop_append Let_def)
  with split ex show ?thesis by simp
qed

lemma export_loop_prefix_trace:
  assumes "export_loop e d vs t acc w = (Inr x, w')"
  shows "trace w' = trace w @ map (export_event d) vs"
  using export_loop_effects[OF assms] by auto

lemma Create_first_export_failure:
  assumes dir: "dir = join (SnapshotDir cfg) name"
    and mk: "os_MkdirAll e dir w = (None, w1)"
    and k: "k < length volumes"
    and pre: "export_loop e dir (take k volumes) 0 [] (StopContainers volumes w1) = (Inr x, wk)"
    and fail: "fst (ExportVolume e (volumes ! k) (archive_path dir (volumes ! k)) wk)"
  shows "\<exists>w'. CreateWithOptions e cfg name volumes opts w
                 = (Inl (ExportFailed (Name (volumes ! k))), w')
     \<and> trace w' = trace w @ EvStop (container_names volumes)
                     # map (export_event dir) (take (Suc k) volumes)
                     @ [EvStart (container_names volumes)]
     \<and> node_at (fs w') (dir @ [''metadata.yaml'']) = node_at (fs w) (dir @ [''metadata.yaml''])
     \<and> Get cfg name w' = Get cfg name w"
proof -
  let ?w2 = "StopContainers volumes w1"
  let ?vk = "volumes ! k"
  let ?w3 = "snd (ExportVolume e ?vk (archive_path dir ?vk) wk)"
  let ?m = "dir @ [''metadata.yaml'']"
  have loop: "export_loop e dir volumes 0 [] ?w2 = (Inl (ExportFailed (Name ?vk)), ?w3)"
    by (rule export_loop_first_failure[OF k pre fail])
  have res: "CreateWithOptions e cfg name volumes opts w
               = (Inl (ExportFailed (Name ?vk)), StartContainers volumes ?w3)"
    using CreateWithOptions_after_mkdir[of e cfg name w w1 volumes] mk loop dir by simp
  have t2: "trace ?w2 = trace w @ [EvStop (container_names volumes)]"
    using os_MkdirAll_effects(1)[OF mk] by (simp add: StopContainers_def)
  have tk: "trace wk = trace ?w2 @ map (export_event dir) (take k volumes)"
    by (rule export_loop_prefix_trace[OF pre])
  have t3: "trace ?w3 = trace wk @ [export_event dir ?vk]"
    by (simp add: ExportVolume_trace export_event_def)
  have "take (Suc k) volumes = take k volumes @ [?vk]"
    using k by (simp add: take_Suc_conv_app_nth)
  then have tr: "trace (StartContainers volumes ?w3) = trace w @ EvStop (container_names volumes)
                     # map (export_event dir) (take (Suc k) volumes)
                     @ [EvStart (container_names volumes)]"
    using t2 tk t3 by (simp add: StartContainers_def)
  have "\<forall>v\<in>set volumes. ?m \<noteq> archive_path dir v"
    using archive_path_neq_metadata[of dir] by metis
  then have "node_at (fs ?w3) ?m = node_at (fs ?w2) ?m"
    using export_loop_effects[OF loop] by blast
  also have "\<dots> = node_at (fs w1) ?m" by (simp add: StopContainers_def)
  also have "\<dots> = node_at (fs w) ?m"
    using os_MkdirAll_effects(4)[OF mk, of ?m] by simp
  finally have nd: "node_at (fs (StartContainers volumes ?w3)) ?m = node_at (fs w) ?m"
    by (simp add: StartContainers_def)
  have gt: "Get cfg name (StartContainers volumes ?w3) = Get cfg name w"
    by (rule Get_eq_node) (use nd dir in simp)
  show ?thesis
    by (rule exI[of _ "StartContainers volumes ?w3"]) (simp only: res tr nd gt simp_thms)
qed


lemma os_WriteFile_trace: "trace (snd (os_WriteFile e p c w)) = trace w"
  by (simp add: os_WriteFile_def)

lemma CreateWithOptions_mkdir_failure:
  assumes "os_MkdirAll e (join (SnapshotDir cfg) name) w = (Some err, w1)"
  shows "CreateWithOptions e cfg name volumes opts w = (Inl err, w1)"
  using assms by (simp add: CreateWithOptions_def)

lemma CreateWithOptions_after_exports:
  assumes "os_MkdirAll e (join (SnapshotDir cfg) name) w = (None, w1)"
    and "export_loop e (join (SnapshotDir cfg) name) volumes 0 [] (StopContainers volumes w1)
           = (Inr (tot, svs), w3)"
  shows "\<exists>r w4. CreateWithOptions e cfg name volumes opts w = (r, StartContainers volumes w4)
           \<and> trace w4 = trace w3
           \<and> (\<forall>s. r = Inr s \<longrightarrow> Tags s = DefaultTags cfg @ OptTags opts)"
proof -
  let ?s = "\<lparr>SName = name, Timestamp = clock w3, SVolumes = svs, STotalBytes = tot,
             SPath = join (SnapshotDir cfg) name, Tags = DefaultTags cfg @ OptTags opts,
             Description = OptDescription opts, Metadata = OptMetadata opts,
             ParentName = OptParentName opts, Incremental = OptIncremental opts\<rparr>"
  let ?m = "join (join (SnapshotDir cfg) name) ''metadata.yaml''"
  obtain b w4 where wr: "os_WriteFile e ?m (Meta ?s) w3 = (b, w4)"
    by (cases "os_WriteFile e ?m (Meta ?s) w3")
  have tr: "trace w4 = trace w3"
    using os_WriteFile_trace[of e ?m "Meta ?s" w3] wr by simp
  have "CreateWithOptions e cfg name volumes opts w
          = ((if b then Inl WriteMetadataFailed else Inr ?s), StartContainers volumes w4)"
    using assms wr by (simp add: CreateWithOptions_def Let_def)
  with tr show ?thesis by auto
qed

lemma CreateWithOptions_trace:
  assumes mk: "os_MkdirAll e (join (SnapshotDir cfg) name) w = (None, w1)"
  shows "\<exists>j\<le>length volumes.
           trace (snd (CreateWithOptions e cfg name volumes opts w))
             = trace w @ EvStop (container_names volumes)
                 # map (export_event (join (SnapshotDir cfg) name)) (take j volumes)
                 @ [EvStart (container_names volumes)]"
proof -
  let ?d = "join (SnapshotDir cfg) name"
  let ?w2 = "StopContainers volumes w1"
  obtain r w3 where loop: "export_loop e ?d volumes 0 [] ?w2 = (r, w3)"
    by (cases "export_loop e ?d volumes 0 [] ?w2")
  from export_loop_effects[OF loop] obtain j where j: "j \<le> length volumes"
    "trace w3 = trace ?w2 @ map (export_event ?d) (take j volumes)"
    by blast
  have t2: "trace ?w2 = trace w @ [EvStop (container_names volumes)]"
    using os_MkdirAll_effects(1)[OF mk] by (simp add: StopContainers_def)
  have "\<exists>w4. snd (CreateWithOptions e cfg name volumes opts w) = StartContainers volumes w4
           \<and> trace w4 = trace w3"
  proof (cases r)
    case (Inl err)
    with CreateWithOptions_after_mkdir[OF mk, of volumes err w3 opts] loop show ?thesis
      by auto
  next
    case (Inr x)
    obtain tot svs where "x = (tot, svs)" by (cases x)
    with Inr CreateWithOptions_after_exports[OF mk, of volumes tot svs w3 opts] loop
    show ?thesis by auto
  qed
  then obtain w4 where w4: "snd (CreateWithOptions e cfg name volumes opts w) = StartContainers volumes w4"
    "trace w4 = trace w3" by blast
  have "trace (snd (CreateWithOptions e cfg name volumes opts w))
          = trace w @ EvStop (container_names volumes) # map (export_event ?d) (take j volumes)
              @ [EvStart (container_names volumes)]"
    using w4 j(2) t2 by (simp add: StartContainers_def)
  with j(1) show ?thesis by blast
qed

lemma ImportVolume_effects:
  "trace (snd (ImportVolume e p v w)) = trace w @ [EvImport p (Name v)]"
  "fs (snd (ImportVolume e p v w)) = fs w"
  "clock (snd (ImportVolume e p v w)) = clock w"
  by (simp_all add: ImportVolume_def Let_def split: outcome.splits option.splits content.splits)

lemma import_loop_effects:
  "import_loop e d vs w = (r, w') \<Longrightarrow>
     fs w' = fs w \<and> clock w' = clock w
     \<and> (\<exists>k\<le>length vs. trace w' = trace w @ map (import_event d) (take k vs)
           \<and> (case r of None \<Rightarrow> k = length vs
                        | Some err \<Rightarrow> 0 < k \<and> err = ImportFailed (Name (vs ! (k - 1)))))"
proof (induction vs arbitrary: w)
  case Nil
  then show ?case by auto
next
  case (Cons v vs)
  let ?p = "archive_path d v"
  obtain b w1 where im: "ImportVolume e ?p v w = (b, w1)"
    by (cases "ImportVolume e ?p v w")
  have w1: "trace w1 = trace w @ [import_event d v]" "fs w1 = fs w" "clock w1 = clock w"
    using ImportVolume_effects[of e ?p v w] im by (simp_all add: import_event_def)
  show ?case
  proof (cases b)
    case True
    with Cons.prems im have "r = Some (ImportFailed (Name v))" "w' = w1"
      by (simp_all add: Let_def)
    with w1 show ?thesis
      by (auto intro!: exI[of _ "Suc 0"])
  next
    case False
    with Cons.prems im have rec: "import_loop e d vs w1 = (r, w')"
      by (simp add: Let_def)
    from Cons.IH[OF rec] obtain k where k: "k \<le> length vs"
      "trace w' = trace w1 @ map (import_event d) (take k vs)"
      "case r of None \<Rightarrow> k = length vs
               | Some err \<Rightarrow> 0 < k \<and> err = ImportFailed (Name (vs ! (k - 1)))"
      and rest: "fs w' = fs w1" "clock w' = clock w1"
      by blast
    have "trace w' = trace w @ map (import_event d) (take (Suc k) (v # vs))"
      using k(2) w1(1) by simp
    moreover have "case r of None \<Rightarrow> Suc k = length (v # vs)
                    | Some err \<Rightarrow> 0 < Suc k \<and> err = ImportFailed (Name ((v # vs) ! (Suc k - 1)))"
      using k(3) by (cases r) (auto simp: nth_Cons')
    moreover have "Suc k \<le> length (v # vs)" using k(1) by simp
    ultimately have "\<exists>k\<le>length (v # vs). trace w' = trace w @ map (import_event d) (take k (v # vs))
           \<and> (case r of None \<Rightarrow> k = length (v # vs)
                        | Some err \<Rightarrow> 0 < k \<and> err = ImportFailed (Name ((v # vs) ! (k - 1))))"
      by blast
    with rest w1 show ?thesis by auto
  qed
qed

lemma import_loop_append:
  "import_loop e d (xs @ ys) w =
     (case import_loop e d xs w of
        (Some err, w') \<Rightarrow> (Some err, w')
      | (None, w') \<Rightarrow> import_loop e d ys w')"
  by (induction xs arbitrary: w) (auto simp: Let_def split: prod.splits bool.splits)

lemma import_loop_first_failure:
  assumes k: "k < length vs"
    and pre: "import_loop e d (take k vs) w = (None, wk)"
    and fail: "fst (ImportVolume e (archive_path d (vs ! k)) (vs ! k) wk)"
  shows "import_loop e d vs w
           = (Some (ImportFailed (Name (vs ! k))),
              snd (ImportVolume e (archive_path d (vs ! k)) (vs ! k) wk))"
proof -
  have split: "vs = take k vs @ (vs ! k) # drop (Suc k) vs"
    using k by (simp add: id_take_nth_drop)
  obtain b w' where im: "ImportVolume e (archive_path d (vs ! k)) (vs ! k) wk = (b, w')"
    by (cases "ImportVolume e (archive_path d (vs ! k)) (vs ! k) wk")
  with fail have b by simp
  have "import_loop e d (take k vs @ (vs ! k) # drop (Suc k) vs) w
          = (Some (ImportFailed (Name (vs ! k))), w')"
    using pre im \<open>b\<close> by (simp add: import_loop_append Let_def)
  with split im show ?thesis by simp
qed

lemma Restore_not_found:
  assumes "loadMetadata w (join (SnapshotDir cfg) name) = Inl err"
  shows "Restore e cfg name w = (Some err, w)" "err = MetadataNotFound \<or> err = InvalidMetadata"
  using assms
  by (auto simp: Restore_def Let_def loadMetadata_eq split: option.splits node.splits content.splits)

lemma Restore_loaded:
  assumes "loadMetadata w (join (SnapshotDir cfg) name) = Inr s"
  shows "Restore e cfg name w =
           (fst (import_loop e (join (SnapshotDir cfg) name) (SVolumes s)
                   (StopContainers (SVolumes s) (after_backup e cfg (SVolumes s) w))),
            StartContainers (SVolumes s)
              (snd (import_loop e (join (SnapshotDir cfg) name) (SVolumes s)
                   (StopContainers (SVolumes s) (after_backup e cfg (SVolumes s) w)))))"
  using assms by (simp add: Restore_def Let_def after_backup_def split: prod.splits)


subsection \<open>Create: a failed export\<close>

text \<open>
  Claim C1. Once the snapshot directory \<open>dir\<close> has been made and the containers have
  been paused, the calls to the runtime on every exit path of \<open>Create\<close> are: the
  pause, the exports of a prefix of the volume list, and the resume as the last call.
  And if the exports of the first \<open>k\<close> volumes succeed and the export of volume \<open>k\<close>
  fails, then \<open>Create\<close> returns the export error of that volume, no later volume is
  exported, the resume is still issued, and the metadata file is left as it was, so
  that \<open>Get\<close> answers for the name what it answered before (for a fresh name: no
  readable record).
\<close>

theorem Create_export_failure:
  assumes dir: "dir = join (SnapshotDir cfg) name"
    and mk: "os_MkdirAll e dir w = (None, w1)"
  shows "(\<exists>j\<le>length volumes.
            trace (snd (CreateWithOptions e cfg name volumes opts w))
              = trace w @ EvStop (container_names volumes)
                  # map (export_event dir) (take j volumes)
                  @ [EvStart (container_names volumes)])
    \<and> (\<forall>k x wk. k < length volumes
          \<longrightarrow> export_loop e dir (take k volumes) 0 [] (StopContainers volumes w1) = (Inr x, wk)
          \<longrightarrow> fst (ExportVolume e (volumes ! k) (archive_path dir (volumes ! k)) wk)
          \<longrightarrow> (\<exists>w'. CreateWithOptions e cfg name volumes opts w
                        = (Inl (ExportFailed (Name (volumes ! k))), w')
                \<and> trace w' = trace w @ EvStop (container_names volumes)
                                # map (export_event dir) (take (Suc k) volumes)
                                @ [EvStart (container_names volumes)]
                \<and> node_at (fs w') (dir @ [''metadata.yaml''])
                    = node_at (fs w) (dir @ [''metadata.yaml''])
                \<and> Get cfg name w' = Get cfg name w))"
proof (intro conjI allI impI)
  show "\<exists>j\<le>length volumes.
            trace (snd (CreateWithOptions e cfg name volumes opts w))
              = trace w @ EvStop (container_names volumes)
                  # map (export_event dir) (take j volumes)
                  @ [EvStart (container_names volumes)]"
    using mk unfolding dir by (rule CreateWithOptions_trace)
next
  fix k x wk
  assume k: "k < length volumes"
    and pre: "export_loop e dir (take k volumes) 0 [] (StopContainers volumes w1) = (Inr x, wk)"
    and fail: "fst (ExportVolume e (volumes ! k) (archive_path dir (volumes ! k)) wk)"
  show "\<exists>w'. CreateWithOptions e cfg name volumes opts w
                        = (Inl (ExportFailed (Name (volumes ! k))), w')
                \<and> trace w' = trace w @ EvStop (container_names volumes)
                                # map (export_event dir) (take (Suc k) volumes)
                                @ [EvStart (container_names volumes)]
                \<and> node_at (fs w') (dir @ [''metadata.yaml''])
                    = node_at (fs w) (dir @ [''metadata.yaml''])
                \<and> Get cfg name w' = Get cfg name w"
    by (rule Create_first_export_failure[OF dir mk k pre fail])
qed

theorem Create_export_failure_witness:
  "fst (os_MkdirAll pg_export_fails [''proj'', ''.dataclean'', ''fresh''] sample_world) = None
   \<and> fst (CreateWithOptions pg_export_fails sample_config ''fresh''
             [pg_volume, redis_volume] no_options sample_world)
       = Inl (ExportFailed ''proj_pgdata'')
   \<and> trace (snd (CreateWithOptions pg_export_fails sample_config ''fresh''
             [pg_volume, redis_volume] no_options sample_world))
       = [EvStop [''proj-db-1'', ''proj-cache-1''],
          EvExport ''proj_pgdata'' [''proj'', ''.dataclean'', ''fresh'', ''proj_pgdata.tar.gz''],
          EvStart [''proj-db-1'', ''proj-cache-1'']]
   \<and> Get sample_config ''fresh'' (snd (CreateWithOptions pg_export_fails sample_config
             ''fresh'' [pg_volume, redis_volume] no_options sample_world))
       = Inl MetadataNotFound"
proof -
  let ?e = pg_export_fails
  let ?d = "[''proj'', ''.dataclean'', ''fresh'']"
  let ?vs = "[pg_volume, redis_volume]"
  let ?w1 = "snd (os_MkdirAll ?e ?d sample_world)"
  have d: "?d = join (SnapshotDir sample_config) ''fresh''"
    by (simp add: join_valid_name valid_name_def sample_config_def)
  have mk0: "fst (os_MkdirAll ?e ?d sample_world) = None"
    by (simp add: os_MkdirAll_def pg_export_fails_def sample_env_def sample_world_def
        nonempty_prefixes_def node_at_def fs_put_def upt_rec)
  then have mk: "os_MkdirAll ?e ?d sample_world = (None, ?w1)"
    by (simp add: prod_eq_iff)
  have k: "0 < length ?vs" by simp
  have pre: "export_loop ?e ?d (take 0 ?vs) 0 [] (StopContainers ?vs ?w1)
               = (Inr (0, []), StopContainers ?vs ?w1)"
    by simp
  have fail: "fst (ExportVolume ?e (?vs ! 0) (archive_path ?d (?vs ! 0)) (StopContainers ?vs ?w1))"
    by (simp add: ExportVolume_def pg_export_fails_def sample_env_def pg_volume_def
        sample_volume_def Let_def)
  have tr0: "trace sample_world = []"
    by (simp add: sample_world_def)
  have g0: "Get sample_config ''fresh'' sample_world = Inl MetadataNotFound"
    by (simp add: Get_def d[symmetric] loadMetadata_eq sample_world_def node_at_def)
  from Create_export_failure[OF d mk, where volumes = ?vs and opts = no_options,
      THEN conjunct2, rule_format, OF k pre fail]
  have "\<exists>w'. CreateWithOptions ?e sample_config ''fresh'' ?vs no_options sample_world
                        = (Inl (ExportFailed (Name pg_volume)), w')
                \<and> trace w' = trace sample_world @ EvStop (container_names ?vs)
                                # [export_event ?d pg_volume]
                                @ [EvStart (container_names ?vs)]
                \<and> Get sample_config ''fresh'' w' = Get sample_config ''fresh'' sample_world"
    by auto
  then show ?thesis
    using mk0 tr0 g0
    by (auto simp: pg_volume_def redis_volume_def sample_volume_def container_names_def
        export_event_def archive_path_eq sanitizeName_map unsafe_chars_def)
qed

subsection \<open>Restore: error handling\<close>

text \<open>
  Claim C2. When the record of the snapshot is absent or does not decode,
  \<open>Restore\<close> returns that error (one of the two errors of \<open>loadMetadata\<close>) and leaves
  the world as it was: no volume changes and nothing is asked of the runtime. When
  the record loads, \<open>Restore\<close> goes on from the world the backup attempt leaves,
  whether or not the backup succeeded, and its result is never the error of the
  backup: the runtime is asked to pause, to import a prefix of the volume list, and
  to resume, the resume being the last call on every such exit path; the result is
  success exactly when every volume was imported, and otherwise the import error of
  the last volume tried. If the imports of the first \<open>k\<close> volumes succeed and the
  import of volume \<open>k\<close> fails, \<open>Restore\<close> returns the import error of that volume and
  no later volume is imported.
\<close>

theorem Restore_error_handling:
  assumes dir: "dir = join (SnapshotDir cfg) name"
  shows "(\<forall>err. loadMetadata w dir = Inl err
            \<longrightarrow> Restore e cfg name w = (Some err, w)
                \<and> (err = MetadataNotFound \<or> err = InvalidMetadata))
    \<and> (\<forall>s. loadMetadata w dir = Inr s
          \<longrightarrow> (\<exists>k\<le>length (SVolumes s).
                 trace (snd (Restore e cfg name w))
                   = trace (after_backup e cfg (SVolumes s) w)
                       @ EvStop (container_names (SVolumes s))
                       # map (import_event dir) (take k (SVolumes s))
                       @ [EvStart (container_names (SVolumes s))]
                 \<and> (case fst (Restore e cfg name w) of
                       None \<Rightarrow> k = length (SVolumes s)
                     | Some err \<Rightarrow> 0 < k \<and> err = ImportFailed (Name (SVolumes s ! (k - 1)))))
              \<and> (\<forall>k wk. k < length (SVolumes s)
                    \<longrightarrow> import_loop e dir (take k (SVolumes s))
                          (StopContainers (SVolumes s) (after_backup e cfg (SVolumes s) w))
                        = (None, wk)
                    \<longrightarrow> fst (ImportVolume e (archive_path dir (SVolumes s ! k)) (SVolumes s ! k) wk)
                    \<longrightarrow> fst (Restore e cfg name w) = Some (ImportFailed (Name (SVolumes s ! k)))
                        \<and> trace (snd (Restore e cfg name w))
                            = trace (after_backup e cfg (SVolumes s) w)
                                @ EvStop (container_names (SVolumes s))
                                # map (import_event dir) (take (Suc k) (SVolumes s))
                                @ [EvStart (container_names (SVolumes s))]))"
proof (intro conjI allI impI)
  fix err assume "loadMetadata w dir = Inl err"
  then have a: "loadMetadata w (join (SnapshotDir cfg) name) = Inl err"
    by (simp add: dir)
  show "Restore e cfg name w = (Some err, w)" "err = MetadataNotFound \<or> err = InvalidMetadata"
    by (rule Restore_not_found[OF a])+
next
  fix s assume ld: "loadMetadata w dir = Inr s"
  let ?vs = "SVolumes s"
  let ?w2 = "StopContainers ?vs (after_backup e cfg ?vs w)"
  note R = Restore_loaded[of w cfg name s e, unfolded dir[symmetric], OF ld]
  obtain r w3 where loop: "import_loop e dir ?vs ?w2 = (r, w3)"
    by (cases "import_loop e dir ?vs ?w2")
  from import_loop_effects[OF loop] obtain k where k: "k \<le> length ?vs"
    "trace w3 = trace ?w2 @ map (import_event dir) (take k ?vs)"
    "case r of None \<Rightarrow> k = length ?vs
             | Some err \<Rightarrow> 0 < k \<and> err = ImportFailed (Name (?vs ! (k - 1)))"
    by blast
  have "trace (snd (Restore e cfg name w))
          = trace (after_backup e cfg ?vs w) @ EvStop (container_names ?vs)
              # map (import_event dir) (take k ?vs) @ [EvStart (container_names ?vs)]"
    using R loop k(2) by (simp add: StartContainers_def StopContainers_def)
  moreover have "fst (Restore e cfg name w) = r"
    using R loop by simp
  ultimately show "\<exists>k\<le>length ?vs.
                 trace (snd (Restore e cfg name w))
                   = trace (after_backup e cfg ?vs w)
                       @ EvStop (container_names ?vs)
                       # map (import_event dir) (take k ?vs)
                       @ [EvStart (container_names ?vs)]
                 \<and> (case fst (Restore e cfg name w) of
                       None \<Rightarrow> k = length ?vs
                     | Some err \<Rightarrow> 0 < k \<and> err = ImportFailed (Name (?vs ! (k - 1))))"
    using k(1,3) by auto
next
  fix s k wk
  assume ld: "loadMetadata w dir = Inr s"
    and k: "k < length (SVolumes s)"
    and pre: "import_loop e dir (take k (SVolumes s))
                (StopContainers (SVolumes s) (after_backup e cfg (SVolumes s) w)) = (None, wk)"
    and fail: "fst (ImportVolume e (archive_path dir (SVolumes s ! k)) (SVolumes s ! k) wk)"
  let ?vs = "SVolumes s"
  let ?w2 = "StopContainers ?vs (after_backup e cfg ?vs w)"
  let ?w3 = "snd (ImportVolume e (archive_path dir (?vs ! k)) (?vs ! k) wk)"
  note R = Restore_loaded[of w cfg name s e, unfolded dir[symmetric], OF ld]
  have loop: "import_loop e dir ?vs ?w2 = (Some (ImportFailed (Name (?vs ! k))), ?w3)"
    by (rule import_loop_first_failure[OF k pre fail])
  show "fst (Restore e cfg name w) = Some (ImportFailed (Name (?vs ! k)))"
    using R loop by simp
  have tk: "trace wk = trace ?w2 @ map (import_event dir) (take k ?vs)"
    using import_loop_effects[OF pre] k by auto
  have t3: "trace ?w3 = trace wk @ [import_event dir (?vs ! k)]"
    by (simp add: ImportVolume_effects import_event_def)
  have "take (Suc k) ?vs = take k ?vs @ [?vs ! k]"
    using k by (simp add: take_Suc_conv_app_nth)
  then show "trace (snd (Restore e cfg name w))
                            = trace (after_backup e cfg ?vs w)
                                @ EvStop (container_names ?vs)
                                # map (import_event dir) (take (Suc k) ?vs)
                                @ [EvStart (container_names ?vs)]"
    using R loop tk t3 by (simp add: StartContainers_def StopContainers_def)
qed


theorem Restore_error_handling_witness:
  "Restore sample_env backup_config ''missing'' restore_world
     = (Some MetadataNotFound, restore_world)
   \<and> fst (Create no_mkdir backup_config (backup_name no_mkdir restore_world)
            [pg_volume, redis_volume] restore_world) = Inl MkdirFailed
   \<and> fst (Restore no_mkdir backup_config ''nightly'' restore_world) = None
   \<and> trace (snd (Restore no_mkdir backup_config ''nightly'' restore_world))
       = [EvStop [''proj-db-1'', ''proj-cache-1''],
          EvImport [''proj'', ''.dataclean'', ''nightly'', ''proj_pgdata.tar.gz''] ''proj_pgdata'',
          EvImport [''proj'', ''.dataclean'', ''nightly'', ''proj_redis.tar.gz''] ''proj_redis'',
          EvStart [''proj-db-1'', ''proj-cache-1'']]
   \<and> fst (Restore pg_import_fails sample_config ''nightly'' restore_world)
       = Some (ImportFailed ''proj_pgdata'')
   \<and> trace (snd (Restore pg_import_fails sample_config ''nightly'' restore_world))
       = [EvStop [''proj-db-1'', ''proj-cache-1''],
          EvImport [''proj'', ''.dataclean'', ''nightly'', ''proj_pgdata.tar.gz''] ''proj_pgdata'',
          EvStart [''proj-db-1'', ''proj-cache-1'']]"
proof -
  let ?w = restore_world
  let ?s = "nightly_record\<lparr>SPath := [''proj'', ''.dataclean'', ''nightly'']\<rparr>"
  let ?vs = "[pg_volume, redis_volume]"
  have d1: "[''proj'', ''.dataclean'', ''missing''] = join (SnapshotDir backup_config) ''missing''"
    and d2: "[''proj'', ''.dataclean'', ''nightly''] = join (SnapshotDir backup_config) ''nightly''"
    and d3: "[''proj'', ''.dataclean'', ''nightly''] = join (SnapshotDir sample_config) ''nightly''"
    by (simp_all add: join_valid_name valid_name_def backup_config_def sample_config_def)
  have l1: "loadMetadata ?w [''proj'', ''.dataclean'', ''missing''] = Inl MetadataNotFound"
    by (simp add: loadMetadata_eq restore_world_def node_at_def)
  have l2: "loadMetadata ?w [''proj'', ''.dataclean'', ''nightly''] = Inr ?s"
    by (simp add: loadMetadata_eq restore_world_def node_at_def)
  have vs: "SVolumes ?s = ?vs"
    by (simp add: nightly_record_def)
  \<comment> \<open>the record is absent\<close>
  have A: "Restore sample_env backup_config ''missing'' ?w = (Some MetadataNotFound, ?w)"
    using Restore_error_handling[OF d1, of ?w sample_env, THEN conjunct1, rule_format, OF l1]
    by simp
  \<comment> \<open>the backup fails, the restore goes on\<close>
  have bk: "os_MkdirAll no_mkdir (join (SnapshotDir backup_config) (backup_name no_mkdir ?w)) ?w
              = (Some MkdirFailed, ?w)"
    by (simp add: os_MkdirAll_def backup_name_def no_mkdir_def sample_env_def backup_config_def
        sample_config_def join_valid_name valid_name_def nonempty_prefixes_def upt_rec
        restore_world_def node_at_def)
  have b0: "Create no_mkdir backup_config (backup_name no_mkdir ?w) ?vs ?w = (Inl MkdirFailed, ?w)"
    unfolding Create_def by (rule CreateWithOptions_mkdir_failure[OF bk])
  have b1: "fst (Create no_mkdir backup_config (backup_name no_mkdir ?w) ?vs ?w) = Inl MkdirFailed"
    by (simp add: b0)
  have bb: "BackupBeforeRestore backup_config"
    by (simp add: backup_config_def)
  have ab: "after_backup no_mkdir backup_config ?vs ?w = ?w"
    by (simp add: after_backup_def b0 bb)
  have b2: "trace (after_backup no_mkdir backup_config ?vs ?w) = []"
    unfolding ab by (simp add: restore_world_def)
  have "fst (import_loop no_mkdir [''proj'', ''.dataclean'', ''nightly''] ?vs
               (StopContainers ?vs ?w)) = None"
    by (simp add: restore_world_def node_at_def pg_volume_def redis_volume_def
        sample_volume_def Let_def StopContainers_def ImportVolume_def os_ReadFile_def
        archive_path_eq sanitizeName_map unsafe_chars_def sample_env_def no_mkdir_def)
  then have b3: "fst (Restore no_mkdir backup_config ''nightly'' ?w) = None"
    using Restore_loaded[of ?w backup_config "''nightly''" ?s no_mkdir, unfolded d2[symmetric],
        OF l2]
    by (simp add: vs ab)
  from Restore_error_handling[OF d2, of ?w no_mkdir, THEN conjunct2, rule_format, OF l2,
      THEN conjunct1]
  have B: "trace (snd (Restore no_mkdir backup_config ''nightly'' ?w))
             = EvStop (container_names ?vs) # map (import_event [''proj'', ''.dataclean'', ''nightly'']) ?vs
                 @ [EvStart (container_names ?vs)]"
    using b2 b3 vs by auto
  \<comment> \<open>the first import fails\<close>
  have k: "0 < length (SVolumes ?s)" by (simp add: vs)
  have pre: "import_loop pg_import_fails [''proj'', ''.dataclean'', ''nightly''] (take 0 (SVolumes ?s))
               (StopContainers (SVolumes ?s) (after_backup pg_import_fails sample_config (SVolumes ?s) ?w))
             = (None, StopContainers ?vs ?w)"
    by (simp add: vs after_backup_def sample_config_def)
  have fail: "fst (ImportVolume pg_import_fails
                (archive_path [''proj'', ''.dataclean'', ''nightly''] (SVolumes ?s ! 0))
                (SVolumes ?s ! 0) (StopContainers ?vs ?w))"
    by (simp add: vs ImportVolume_def pg_import_fails_def sample_env_def pg_volume_def
        sample_volume_def Let_def)
  have c2: "trace (after_backup pg_import_fails sample_config ?vs ?w) = []"
    by (simp add: after_backup_def sample_config_def restore_world_def)
  from Restore_error_handling[OF d3, of ?w pg_import_fails, THEN conjunct2, rule_format, OF l2,
      THEN conjunct2, rule_format, OF k pre fail]
  have C: "fst (Restore pg_import_fails sample_config ''nightly'' ?w)
             = Some (ImportFailed (Name pg_volume))"
    "trace (snd (Restore pg_import_fails sample_config ''nightly'' ?w))
       = EvStop (container_names ?vs) # [import_event [''proj'', ''.dataclean'', ''nightly''] pg_volume]
           @ [EvStart (container_names ?vs)]"
    using c2 by (simp_all add: vs)
  show ?thesis
    using A b1 b3 B C
    by (simp add: pg_volume_def redis_volume_def sample_volume_def container_names_def
        import_event_def archive_path_eq sanitizeName_map unsafe_chars_def)
qed


subsection \<open>Tags\<close>

lemma has_tag_iff: "has_tag ts t = (t \<in> set ts)"
  by (induction ts) auto

lemma os_WriteFile_success:
  assumes "os_WriteFile e p c w = (False, w')"
  shows "node_at (fs w') q = (if q = p then Some (File c) else node_at (fs w) q)"
  using assms
  by (auto simp: os_WriteFile_def node_at_fs_put node_at_root split: if_splits)

lemma loadMetadata_path: "loadMetadata w d = Inr s \<Longrightarrow> SPath s = d"
  by (auto simp: loadMetadata_eq split: option.splits node.splits content.splits)

lemma AddTag_success:
  assumes g: "Get cfg name w = Inr s" and a: "AddTag e cfg name tag w = (None, w1)"
  shows "Get cfg name w1 = Inr (s\<lparr>Tags := (if tag \<in> set (Tags s) then Tags s else Tags s @ [tag])\<rparr>)"
proof (cases "tag \<in> set (Tags s)")
  case True
  with g a have "w1 = w"
    by (simp add: AddTag_def has_tag_iff)
  with g True show ?thesis by simp
next
  case False
  let ?d = "join (SnapshotDir cfg) name"
  let ?s' = "s\<lparr>Tags := Tags s @ [tag]\<rparr>"
  have p: "SPath s = ?d"
    using g by (simp add: Get_def loadMetadata_path)
  from g a False have "saveMetadata e ?s' w = (None, w1)"
    by (simp add: AddTag_def has_tag_iff)
  then have wr: "os_WriteFile e (?d @ [''metadata.yaml'']) (Meta ?s') w = (False, w1)"
    by (auto simp: saveMetadata_def p join_metadata Let_def split: prod.splits bool.splits)
  have "node_at (fs w1) (?d @ [''metadata.yaml'']) = Some (File (Meta ?s'))"
    using os_WriteFile_success[OF wr] by simp
  then have "Get cfg name w1 = Inr (?s'\<lparr>SPath := ?d\<rparr>)"
    by (simp add: Get_def loadMetadata_eq)
  also have "?s'\<lparr>SPath := ?d\<rparr> = ?s'"
    using p by simp
  finally show ?thesis using False by simp
qed

lemma CreateWithOptions_tags:
  assumes "CreateWithOptions e cfg name volumes opts w = (Inr s, w')"
  shows "Tags s = DefaultTags cfg @ OptTags opts"
proof -
  let ?d = "join (SnapshotDir cfg) name"
  obtain r1 w1 where mk: "os_MkdirAll e ?d w = (r1, w1)"
    by (cases "os_MkdirAll e ?d w")
  show ?thesis
  proof (cases r1)
    case (Some err)
    with mk CreateWithOptions_mkdir_failure[of e cfg name w err w1 volumes opts] assms
    show ?thesis by simp
  next
    case None
    obtain r w3 where loop: "export_loop e ?d volumes 0 [] (StopContainers volumes w1) = (r, w3)"
      by (cases "export_loop e ?d volumes 0 [] (StopContainers volumes w1)")
    show ?thesis
    proof (cases r)
      case (Inl err)
      with CreateWithOptions_after_mkdir[of e cfg name w w1 volumes err w3 opts] mk None loop assms
      show ?thesis by simp
    next
      case (Inr x)
      obtain tot svs where "x = (tot, svs)" by (cases x)
      with Inr CreateWithOptions_after_exports[of e cfg name w w1 volumes tot svs w3 opts]
        mk None loop assms
      show ?thesis by auto
    qed
  qed
qed

text \<open>
  \<open>AddTag\<close> suppresses duplicates: it appends a tag only when the record does not hold
  it. After two successful calls with the same tag the record holds its former tags,
  followed by the tag if it was missing; a duplicate-free tag list stays
  duplicate-free, and a tag that occurred at most once occurs exactly once.
\<close>

lemma AddTag_twice:
  assumes g: "Get cfg name w = Inr s"
    and a1: "AddTag e cfg name tag w = (None, w1)"
    and a2: "AddTag e cfg name tag w1 = (None, w2)"
  shows "\<exists>s2. Get cfg name w2 = Inr s2
             \<and> Tags s2 = (if tag \<in> set (Tags s) then Tags s else Tags s @ [tag])
             \<and> (distinct (Tags s) \<longrightarrow> distinct (Tags s2))
             \<and> (count_list (Tags s) tag \<le> 1 \<longrightarrow> count_list (Tags s2) tag = 1)"
proof -
  let ?ts = "if tag \<in> set (Tags s) then Tags s else Tags s @ [tag]"
  have g1: "Get cfg name w1 = Inr (s\<lparr>Tags := ?ts\<rparr>)"
    by (rule AddTag_success[OF g a1])
  have "Get cfg name w2 = Inr (s\<lparr>Tags := ?ts\<rparr>)"
    using AddTag_success[OF g1 a2] by (simp split: if_splits)
  moreover have "distinct (Tags s) \<longrightarrow> distinct ?ts"
    by simp
  moreover have "count_list (Tags s) tag \<le> 1 \<longrightarrow> count_list ?ts tag = 1"
  proof (cases "tag \<in> set (Tags s)")
    case True
    then have "count_list (Tags s) tag \<noteq> 0"
      by (simp add: count_list_0_iff)
    with True show ?thesis by auto
  next
    case False
    then have "count_list (Tags s) tag = 0"
      by (simp add: count_list_0_iff)
    with False show ?thesis by simp
  qed
  ultimately show ?thesis by simp
qed

text \<open>
  Claim C8 at a configuration whose default tag is also passed in the options.
  \<open>Create\<close> joins the two lists with a plain append and has no step that drops a
  repeated tag, as \<open>AddTag\<close> has: the record it returns and stores holds the tag
  \<open>nightly\<close> twice, so the tag list of a record is not always duplicate-free.
\<close>

theorem Create_repeats_tags:
  "map_sum id Tags (fst (CreateWithOptions sample_env sample_config ''tagged'' [] tagged_options
      sample_world)) = Inr [''nightly'', ''nightly'']
   \<and> map_sum id Tags (Get sample_config ''tagged''
        (snd (CreateWithOptions sample_env sample_config ''tagged'' [] tagged_options
           sample_world))) = Inr [''nightly'', ''nightly'']"
  by code_simp

subsection \<open>The storage path of a loaded record\<close>

lemma entry_records_member:
  assumes "s \<in> set (entry_records w root n)"
  shows "node_at (fs w) (root @ [n]) = Some Dir
      \<and> (\<exists>r. node_at (fs w) (root @ [n, ''metadata.yaml'']) = Some (File (Meta r))
           \<and> s = r\<lparr>SPath := root @ [n]\<rparr>)"
proof -
  have d: "node_at (fs w) (root @ [n]) = Some Dir"
  proof (rule ccontr)
    assume "node_at (fs w) (root @ [n]) \<noteq> Some Dir"
    then have "entry_records w root n = []"
      by (simp add: entry_records_def)
    with assms show False by simp
  qed
  with assms have "s \<in> set (case node_at (fs w) (root @ [n, ''metadata.yaml'']) of
              Some (File (Meta r)) \<Rightarrow> [r\<lparr>SPath := root @ [n]\<rparr>]
            | _ \<Rightarrow> [])"
    by (simp add: entry_records_def)
  then have "\<exists>r. node_at (fs w) (root @ [n, ''metadata.yaml'']) = Some (File (Meta r))
           \<and> s = r\<lparr>SPath := root @ [n]\<rparr>"
    by (cases "node_at (fs w) (root @ [n, ''metadata.yaml''])")
       (auto split: node.splits content.splits)
  with d show ?thesis by simp
qed













subsection \<open>Volume detection\<close>

lemma contains_iff: "contains xs x = (x \<in> set xs)"
  by (induction xs) auto

lemma split_on_nonempty: "split_on c s \<noteq> []"
  by (induction s) (auto split: list.splits)

lemma length_split_on: "length (split_on c s) = Suc (length (filter (\<lambda>x. x = c) s))"
  by (induction s) (auto split: list.splits simp: split_on_nonempty)

lemma split_on_single: "length (split_on c s) < 2 \<Longrightarrow> split_on c s = [s]"
proof -
  assume "length (split_on c s) < 2"
  then have "filter (\<lambda>x. x = c) s = []"
    by (simp add: length_split_on)
  then have "c \<notin> set s"
    by (auto simp: filter_empty_conv)
  then show ?thesis by (rule split_on_no_sep)
qed

lemma mount_volume_eq:
  "mount_volume cfg pn compose svc m =
     (if 2 \<le> length (split_on CHR '':'' m) \<and> survives cfg compose m
      then Some (volume_of cfg pn svc m) else None)"
  by (auto simp: mount_volume_def Let_def survives_def is_bind_def declared_def passes_filters_def
      contains_iff volume_of_def mount_reference_def mount_target_def hd_conv_nth split_on_nonempty
      split: option.splits)

lemma mount_volume_valid:
  assumes "valid_mount m"
  shows "mount_volume cfg pn compose svc m =
           (if survives cfg compose m then Some (volume_of cfg pn svc m) else None)"
proof (cases "2 \<le> length (split_on CHR '':'' m)")
  case True
  then show ?thesis by (simp add: mount_volume_eq)
next
  case False
  then have "split_on CHR '':'' m = [m]"
    by (simp add: split_on_single)
  moreover from False assms have "hasPrefix m ''/''"
    by (simp add: valid_mount_def)
  ultimately have "\<not> survives cfg compose m"
    by (simp add: survives_def is_bind_def mount_reference_def)
  with False show ?thesis by (simp add: mount_volume_eq)
qed

lemma service_volumes_eq:
  "service_volumes cfg pn compose svc ms acc
     = acc @ List.map_filter (mount_volume cfg pn compose svc) ms"
  by (induction ms arbitrary: acc) (auto simp: List.map_filter_simps split: option.splits)

lemma detect_loop_eq:
  "detect_loop cfg pn compose services acc
     = acc @ concat (map (\<lambda>entry. List.map_filter (mount_volume cfg pn compose (snd entry))
                                     (Mounts (snd entry))) services)"
  by (induction services arbitrary: acc) (auto simp: service_volumes_eq)

lemma map_filter_valid:
  assumes "list_all valid_mount ms"
  shows "List.map_filter (mount_volume cfg pn compose svc) ms
           = map (volume_of cfg pn svc) (filter (survives cfg compose) ms)"
  using assms
  by (induction ms) (auto simp: List.map_filter_simps mount_volume_valid)

text \<open>
  Claim C3. For every valid manifest and every configuration, the list \<open>DetectComposeVolumes\<close>
  emits is, service by service in the order the services are visited, one volume for
  each mount entry of the service whose reference is not path-like, is declared, and
  passes the include and exclude filters, in the order of the entries, with nothing
  merged across services; the name of each volume is the project name, an underscore,
  and the reference; and the project name is the base name of the working directory.
\<close>

theorem detect_names_and_count:
  assumes "valid_manifest compose"
  shows "DetectComposeVolumes cfg getwd compose
           = concat (map (emitted cfg (getProjectName getwd) compose) (Services compose))
       \<and> (\<forall>cwd. getwd = Some cwd \<longrightarrow> getProjectName getwd = filepath_Base cwd)"
proof -
  have "map (\<lambda>entry. List.map_filter (mount_volume cfg (getProjectName getwd) compose (snd entry))
                                     (Mounts (snd entry))) (Services compose)
          = map (emitted cfg (getProjectName getwd) compose) (Services compose)"
    using assms
    by (auto simp: valid_manifest_def list_all_iff emitted_def intro!: map_filter_valid)
  then have "DetectComposeVolumes cfg getwd compose
           = concat (map (emitted cfg (getProjectName getwd) compose) (Services compose))"
    by (simp only: DetectComposeVolumes_def detect_loop_eq append_Nil)
  then show ?thesis
    by (simp add: getProjectName_def)
qed

lemmas detect_eval = DetectComposeVolumes_def getProjectName_def filepath_Base_def mount_volume_def
  sample_manifest_def reordered_manifest_def db_service_def cache_service_def
  worker_service_def sample_config_def hasPrefix_def Let_def hint_for_def

lemma sample_manifest_valid: "valid_manifest (sample_manifest decl)"
  by (simp add: valid_manifest_def sample_manifest_def db_service_def cache_service_def
      worker_service_def valid_mount_def hasPrefix_def)

theorem detect_names_and_count_witness:
  "valid_manifest (sample_manifest (Some [''pgdata'', ''redisdata'']))
   \<and> map Name (DetectComposeVolumes sample_config (Some ''/home/dev/proj'')
                  (sample_manifest (Some [''pgdata'', ''redisdata''])))
       = [''proj_pgdata'', ''proj_redisdata'', ''proj_pgdata'']"
proof -
  have "map Name (concat (map (emitted sample_config (getProjectName (Some ''/home/dev/proj''))
                                  (sample_manifest (Some [''pgdata'', ''redisdata''])))
                            (Services (sample_manifest (Some [''pgdata'', ''redisdata''])))))
          = [''proj_pgdata'', ''proj_redisdata'', ''proj_pgdata'']"
    by (simp add: emitted_def survives_def is_bind_def declared_def passes_filters_def
        mount_reference_def volume_of_def detect_eval)
  then show ?thesis
    using detect_names_and_count[OF sample_manifest_valid,
        where cfg = sample_config and getwd = "Some ''/home/dev/proj''"] sample_manifest_valid
    by simp
qed

text \<open>
  Claim C4, as stated, fails for a volumes section that is present and empty: the
  check is for a nil map only, so with an empty section no reference is declared and
  every mount entry is skipped, while the same manifest without the section yields
  all three volumes.
\<close>

theorem empty_volumes_section_rejects_all:
  "DetectComposeVolumes sample_config (Some ''/home/dev/proj'') (sample_manifest (Some [])) = []
   \<and> map Name (DetectComposeVolumes sample_config (Some ''/home/dev/proj'') (sample_manifest None))
       = [''proj_pgdata'', ''proj_redisdata'', ''proj_pgdata'']"
  by (simp add: detect_eval)

lemma detect_eq_map_filter:
  "DetectComposeVolumes cfg getwd compose
     = concat (map (\<lambda>entry. List.map_filter (mount_volume cfg (getProjectName getwd) compose (snd entry))
                                     (Mounts (snd entry))) (Services compose))"
  by (simp only: DetectComposeVolumes_def detect_loop_eq append_Nil)

lemma set_map_filter: "set (List.map_filter f xs) = {y. \<exists>x\<in>set xs. f x = Some y}"
  by (induction xs) (auto simp: List.map_filter_simps split: option.splits)

lemma detect_member:
  "v \<in> set (DetectComposeVolumes cfg getwd compose) \<longleftrightarrow>
     (\<exists>entry\<in>set (Services compose). \<exists>m\<in>set (Mounts (snd entry)).
        mount_volume cfg (getProjectName getwd) compose (snd entry) m = Some v)"
  unfolding detect_eq_map_filter
  by (simp add: set_map_filter)

text \<open>
  Claim C4, amended. When the manifest has no volumes section, \<open>DetectComposeVolumes\<close> accepts every
  named reference of a service mount (subject to the include and exclude filters).
  When the section is present, a mount whose reference is not one of its keys is
  skipped, and every emitted volume is named after a key; in particular a section
  that is present and empty makes \<open>DetectComposeVolumes\<close> emit nothing.
\<close>

theorem declared_volumes_check:
  "(DeclaredVolumes compose = None
      \<longrightarrow> (\<forall>entry\<in>set (Services compose). \<forall>m\<in>set (Mounts (snd entry)).
             2 \<le> length (split_on CHR '':'' m) \<longrightarrow> \<not> is_bind (mount_reference m)
             \<longrightarrow> passes_filters cfg (mount_reference m)
             \<longrightarrow> volume_of cfg (getProjectName getwd) (snd entry) m
                   \<in> set (DetectComposeVolumes cfg getwd compose)))
   \<and> (\<forall>ds. DeclaredVolumes compose = Some ds
         \<longrightarrow> (\<forall>svc m. mount_reference m \<notin> set ds
                 \<longrightarrow> mount_volume cfg (getProjectName getwd) compose svc m = None)
             \<and> (\<forall>v\<in>set (DetectComposeVolumes cfg getwd compose).
                   \<exists>r\<in>set ds. Name v = getProjectName getwd @ ''_'' @ r))
   \<and> (DeclaredVolumes compose = Some [] \<longrightarrow> DetectComposeVolumes cfg getwd compose = [])"
proof (intro conjI allI impI ballI)
  fix entry m
  assume "DeclaredVolumes compose = None" "entry \<in> set (Services compose)"
    "m \<in> set (Mounts (snd entry))" "2 \<le> length (split_on CHR '':'' m)"
    "\<not> is_bind (mount_reference m)" "passes_filters cfg (mount_reference m)"
  then show "volume_of cfg (getProjectName getwd) (snd entry) m \<in> set (DetectComposeVolumes cfg getwd compose)"
    unfolding detect_member
    by (auto simp: mount_volume_eq survives_def declared_def)
next
  fix ds svc m
  assume "DeclaredVolumes compose = Some ds" "mount_reference m \<notin> set ds"
  then show "mount_volume cfg (getProjectName getwd) compose svc m = None"
    by (simp add: mount_volume_eq survives_def declared_def)
next
  fix ds v
  assume ds: "DeclaredVolumes compose = Some ds" and "v \<in> set (DetectComposeVolumes cfg getwd compose)"
  then obtain svc m where "mount_volume cfg (getProjectName getwd) compose svc m = Some v"
    by (auto simp: detect_member)
  then have "survives cfg compose m" "v = volume_of cfg (getProjectName getwd) svc m"
    by (auto simp: mount_volume_eq split: if_splits)
  with ds show "\<exists>r\<in>set ds. Name v = getProjectName getwd @ ''_'' @ r"
    by (auto simp: survives_def declared_def volume_of_def)
next
  assume ds: "DeclaredVolumes compose = Some []"
  have "\<And>svc m. mount_volume cfg (getProjectName getwd) compose svc m = None"
    using ds by (simp add: mount_volume_eq survives_def declared_def)
  then show "DetectComposeVolumes cfg getwd compose = []"
    by (simp add: detect_eq_map_filter List.map_filter_def)
qed

lemma project_proj: "getProjectName (Some ''/home/dev/proj'') = ''proj''"
  by (simp add: getProjectName_def filepath_Base_def)

theorem declared_volumes_check_witness:
  "DeclaredVolumes (sample_manifest None) = None
   \<and> volume_of sample_config ''proj'' db_service ''pgdata:/var/lib/postgresql/data''
       \<in> set (DetectComposeVolumes sample_config (Some ''/home/dev/proj'') (sample_manifest None))
   \<and> mount_volume sample_config ''proj'' (sample_manifest (Some [''redisdata''])) db_service
         ''pgdata:/var/lib/postgresql/data'' = None
   \<and> map Name (DetectComposeVolumes sample_config (Some ''/home/dev/proj'') (sample_manifest (Some [''redisdata''])))
       = [''proj_redisdata'']
   \<and> DetectComposeVolumes sample_config (Some ''/home/dev/proj'') (sample_manifest (Some [])) = []"
proof -
  let ?g = "Some ''/home/dev/proj''"
  let ?m = "''pgdata:/var/lib/postgresql/data''"
  note T = declared_volumes_check[where cfg = sample_config and getwd = ?g]
  have n: "DeclaredVolumes (sample_manifest None) = None"
    by (simp add: sample_manifest_def)
  have e: "(''db'', db_service) \<in> set (Services (sample_manifest None))"
    by (simp add: sample_manifest_def)
  have m: "?m \<in> set (Mounts (snd (''db'', db_service)))"
    by (simp add: db_service_def)
  have p: "2 \<le> length (split_on CHR '':'' ?m)" "\<not> is_bind (mount_reference ?m)"
    "passes_filters sample_config (mount_reference ?m)"
    by (simp_all add: is_bind_def mount_reference_def passes_filters_def sample_config_def
        hasPrefix_def)
  have A: "volume_of sample_config ''proj'' db_service ?m
             \<in> set (DetectComposeVolumes sample_config ?g (sample_manifest None))"
    using T[of "sample_manifest None", THEN conjunct1, rule_format, OF n e m p]
    by (simp add: project_proj)
  have s: "DeclaredVolumes (sample_manifest (Some [''redisdata''])) = Some [''redisdata'']"
    by (simp add: sample_manifest_def)
  have r: "mount_reference ?m \<notin> set [''redisdata'']"
    by (simp add: mount_reference_def)
  have B: "mount_volume sample_config ''proj'' (sample_manifest (Some [''redisdata''])) db_service
             ?m = None"
    using T[of "sample_manifest (Some [''redisdata''])", THEN conjunct2, THEN conjunct1,
        rule_format, OF s, THEN conjunct1, rule_format, OF r, of db_service]
    by (simp add: project_proj)
  have C: "map Name (DetectComposeVolumes sample_config ?g (sample_manifest (Some [''redisdata''])))
             = [''proj_redisdata'']"
    by (simp add: detect_eval)
  have z: "DeclaredVolumes (sample_manifest (Some [])) = Some []"
    by (simp add: sample_manifest_def)
  have D: "DetectComposeVolumes sample_config ?g (sample_manifest (Some [])) = []"
    using T[of "sample_manifest (Some [])", THEN conjunct2, THEN conjunct2, rule_format, OF z] .
  from n A B C D show ?thesis by simp
qed

lemma mount_volume_cong:
  "DeclaredVolumes c' = DeclaredVolumes c
     \<Longrightarrow> mount_volume cfg pn c' svc = mount_volume cfg pn c svc"
  by (rule ext) (simp add: mount_volume_eq survives_def declared_def)

lemma mset_concat_map_perm:
  assumes "mset xs = mset ys"
  shows "mset (concat (map f xs)) = mset (concat (map f ys))"
proof -
  have "\<And>zs. mset (concat (map f zs)) = sum_mset (image_mset (\<lambda>z. mset (f z)) (mset zs))"
    by (induct_tac zs) simp_all
  with assms show ?thesis by simp
qed

text \<open>
  Claim C9, as stated, fails: the services are the entries of a Go map, and two loops
  over the same map may visit them in different orders. The same manifest, visited
  in two orders, gives two different lists.
\<close>

theorem services_order_changes_result:
  "Services (reordered_manifest None) = rev (Services (sample_manifest None))
   \<and> DeclaredVolumes (reordered_manifest None) = DeclaredVolumes (sample_manifest None)
   \<and> map MountPath (DetectComposeVolumes sample_config (Some ''/home/dev/proj'') (sample_manifest None))
       = [''/var/lib/postgresql/data'', ''/data'', ''/backup'']
   \<and> map MountPath (DetectComposeVolumes sample_config (Some ''/home/dev/proj'') (reordered_manifest None))
       = [''/backup'', ''/data'', ''/var/lib/postgresql/data'']
   \<and> DetectComposeVolumes sample_config (Some ''/home/dev/proj'') (sample_manifest None)
       \<noteq> DetectComposeVolumes sample_config (Some ''/home/dev/proj'') (reordered_manifest None)"
proof -
  have a: "map MountPath (DetectComposeVolumes sample_config (Some ''/home/dev/proj'') (sample_manifest None))
       = [''/var/lib/postgresql/data'', ''/data'', ''/backup'']"
    and b: "map MountPath (DetectComposeVolumes sample_config (Some ''/home/dev/proj'') (reordered_manifest None))
       = [''/backup'', ''/data'', ''/var/lib/postgresql/data'']"
    by (simp_all add: detect_eval)
  have "DetectComposeVolumes sample_config (Some ''/home/dev/proj'') (sample_manifest None)
       \<noteq> DetectComposeVolumes sample_config (Some ''/home/dev/proj'') (reordered_manifest None)"
  proof
    assume "DetectComposeVolumes sample_config (Some ''/home/dev/proj'') (sample_manifest None)
       = DetectComposeVolumes sample_config (Some ''/home/dev/proj'') (reordered_manifest None)"
    then have "map MountPath (DetectComposeVolumes sample_config (Some ''/home/dev/proj'') (sample_manifest None))
       = map MountPath (DetectComposeVolumes sample_config (Some ''/home/dev/proj'') (reordered_manifest None))"
      by simp
    then show False unfolding a b by simp
  qed
  with a b show ?thesis
    by (simp add: sample_manifest_def reordered_manifest_def)
qed

text \<open>
  Claim C9, amended. \<open>DetectComposeVolumes\<close> emits its list service by service, in the order in
  which the loop visits the services, and within a service in the order of its mount
  entries. Two detections over the same manifest, configuration and working
  directory emit the same volumes, each as often, whatever the two visiting orders;
  the lists are equal when the visiting orders are.
\<close>

theorem detect_order:
  "DetectComposeVolumes cfg getwd compose
     = concat (map (\<lambda>entry. service_volumes cfg (getProjectName getwd) compose (snd entry)
                              (Mounts (snd entry)) [])
                   (Services compose))
   \<and> (\<forall>compose' :: ComposeConfig. mset (Services compose') = mset (Services compose)
         \<longrightarrow> DeclaredVolumes compose' = DeclaredVolumes compose
         \<longrightarrow> mset (DetectComposeVolumes cfg getwd compose') = mset (DetectComposeVolumes cfg getwd compose))"
proof (intro conjI allI impI)
  show "DetectComposeVolumes cfg getwd compose
     = concat (map (\<lambda>entry. service_volumes cfg (getProjectName getwd) compose (snd entry)
                              (Mounts (snd entry)) [])
                   (Services compose))"
    by (simp only: detect_eq_map_filter service_volumes_eq append_Nil)
next
  fix compose' :: ComposeConfig
  assume p: "mset (Services compose') = mset (Services compose)"
    and d: "DeclaredVolumes compose' = DeclaredVolumes compose"
  let ?f = "\<lambda>entry. List.map_filter (mount_volume cfg (getProjectName getwd) compose (snd entry))
                                     (Mounts (snd entry))"
  have "DetectComposeVolumes cfg getwd compose' = concat (map ?f (Services compose'))"
    by (simp only: detect_eq_map_filter mount_volume_cong[OF d])
  moreover have "DetectComposeVolumes cfg getwd compose = concat (map ?f (Services compose))"
    by (simp only: detect_eq_map_filter)
  ultimately show "mset (DetectComposeVolumes cfg getwd compose') = mset (DetectComposeVolumes cfg getwd compose)"
    using mset_concat_map_perm[OF p, of ?f] by simp
qed

theorem detect_order_witness:
  "mset (Services (reordered_manifest None)) = mset (Services (sample_manifest None))
   \<and> DeclaredVolumes (reordered_manifest None) = DeclaredVolumes (sample_manifest None)
   \<and> mset (DetectComposeVolumes sample_config (Some ''/home/dev/proj'') (reordered_manifest None))
       = mset (DetectComposeVolumes sample_config (Some ''/home/dev/proj'') (sample_manifest None))
   \<and> map MountPath (DetectComposeVolumes sample_config (Some ''/home/dev/proj'') (sample_manifest None))
       = [''/var/lib/postgresql/data'', ''/data'', ''/backup'']"
proof -
  have p: "mset (Services (reordered_manifest None)) = mset (Services (sample_manifest None))"
    by (simp add: sample_manifest_def reordered_manifest_def)
  have d: "DeclaredVolumes (reordered_manifest None) = DeclaredVolumes (sample_manifest None)"
    by (simp add: sample_manifest_def reordered_manifest_def)
  have o: "map MountPath (DetectComposeVolumes sample_config (Some ''/home/dev/proj'') (sample_manifest None))
       = [''/var/lib/postgresql/data'', ''/data'', ''/backup'']"
    by (simp add: detect_eval)
  from detect_order[of sample_config "Some ''/home/dev/proj''" "sample_manifest None",
      THEN conjunct2, rule_format, OF p d] p d o
  show ?thesis by simp
qed

subsection \<open>The retention sweep\<close>

text \<open>
  The sweep does nothing when retention is disabled. Otherwise it returns, in the
  order of the listing, the names of the removable snapshots, going on after a
  removal that fails; and it removes everything at or below the directory called by
  the name of each of them.
\<close>

lemma CleanupOldSnapshots_disabled:
  "RetentionDays cfg \<le> 0 \<Longrightarrow> CleanupOldSnapshots e cfg w = (Inr [], w)"
  by (simp add: CleanupOldSnapshots_def)

lemma cleanup_loop_deleted:
  "fst (cleanup_loop e cfg cutoff ss acc w)
     = acc @ map SName (filter (removable e cfg cutoff) ss)"
  by (induction ss arbitrary: acc w)
     (auto simp: removable_def eligible_def Delete_def os_RemoveAll_def split: prod.splits)

lemma cleanup_loop_fs:
  "fs (snd (cleanup_loop e cfg cutoff ss acc w))
     = filter (\<lambda>(q, _). \<not> list_ex (\<lambda>s. removable e cfg cutoff s
                                       \<and> prefix (join (SnapshotDir cfg) (SName s)) q) ss)
              (fs w)"
proof (induction ss arbitrary: acc w)
  case Nil
  then show ?case by simp
next
  case (Cons s ss)
  show ?case
  proof (cases "removable e cfg cutoff s")
    case True
    then have "cleanup_loop e cfg cutoff (s # ss) acc w
                 = cleanup_loop e cfg cutoff ss (acc @ [SName s])
                     (w\<lparr>fs := filter (\<lambda>(q, _). \<not> prefix (join (SnapshotDir cfg) (SName s)) q) (fs w)\<rparr>)"
      by (simp add: removable_def eligible_def Delete_def os_RemoveAll_def)
    then show ?thesis
      using True by (simp add: Cons.IH) (rule filter_cong, auto)
  next
    case False
    then have "snd (cleanup_loop e cfg cutoff (s # ss) acc w)
                 = snd (cleanup_loop e cfg cutoff ss acc w)"
      by (auto simp: removable_def eligible_def Delete_def os_RemoveAll_def)
    then show ?thesis
      using False by (simp add: Cons.IH)
  qed
qed

text \<open>
  In a catalog whose names match, the sweep does what claim C6 says: it returns the
  names of the removable snapshots, these are gone afterwards, and every other
  snapshot of the listing (marker-prefixed, recent, or not removed because the
  removal failed) is still read back unchanged.
\<close>

lemma node_at_filter:
  "node_at (filter (\<lambda>(q, _). P q) fsys) q
     = (if q = [] then Some Dir else if P q then map_of fsys q else None)"
  by (simp add: node_at_def map_of_filter_key)

lemma readable_records_member:
  assumes "s \<in> set (readable_records w root)"
  obtains n where "n \<in> set (child_names (fs w) root)" "s \<in> set (entry_records w root n)"
  using assms unfolding readable_records_def by auto

lemma entry_records_single:
  "s \<in> set (entry_records w root n) \<Longrightarrow> s' \<in> set (entry_records w root n) \<Longrightarrow> s' = s"
  by (auto dest!: entry_records_member)

lemma prefix_child: "prefix (root @ [d]) (root @ n # rest) \<longleftrightarrow> d = n"
  by auto

lemma Cleanup_when_names_match:
  assumes root: "node_at (fs w) (SnapshotDir cfg) = Some Dir" and v: "valid_fs (fs w)"
    and ret: "0 < RetentionDays cfg"
    and nm: "names_match w (SnapshotDir cfg)"
    and cut: "cutoff = addDays (clock w) (- RetentionDays cfg)"
    and res: "CleanupOldSnapshots e cfg w = (r, w')"
  shows "\<exists>ss. List cfg w = Inr ss
           \<and> r = Inr (map SName (filter (removable e cfg cutoff) ss))
           \<and> (\<forall>s\<in>set ss. if removable e cfg cutoff s
                           then node_at (fs w') (SnapshotDir cfg @ [SName s]) = None
                                \<and> Get cfg (SName s) w' = Inl MetadataNotFound
                           else Get cfg (SName s) w' = Inr s)"
proof -
  let ?root = "SnapshotDir cfg"
  let ?ss = "sort_newest_first (readable_records w ?root)"
  let ?gone = "\<lambda>q. list_ex (\<lambda>s. removable e cfg cutoff s \<and> prefix (join ?root (SName s)) q) ?ss"
  have l: "List cfg w = Inr ?ss"
    by (rule List_of_directory[OF root v])
  have set_ss: "set ?ss = set (readable_records w ?root)"
    using sort_newest_first_mset[of "readable_records w ?root"] by (rule mset_eq_setD)
  obtain d w1 where loop: "cleanup_loop e cfg cutoff ?ss [] w = (d, w1)"
    by (cases "cleanup_loop e cfg cutoff ?ss [] w")
  have rw: "r = Inr d" "w' = w1"
    using res ret l loop by (simp_all add: CleanupOldSnapshots_def cut Let_def)
  have d: "d = map SName (filter (removable e cfg cutoff) ?ss)"
    using cleanup_loop_deleted[of e cfg cutoff ?ss "[]" w] loop by simp
  have fsw: "fs w' = filter (\<lambda>(q, _). \<not> ?gone q) (fs w)"
    using cleanup_loop_fs[of e cfg cutoff ?ss "[]" w] loop rw by simp
  have facts: "valid_name (SName s) \<and> s \<in> set (entry_records w ?root (SName s))
               \<and> join ?root (SName s) = ?root @ [SName s]"
    if "s \<in> set ?ss" for s
  proof -
    from that set_ss obtain n where n: "n \<in> set (child_names (fs w) ?root)"
      "s \<in> set (entry_records w ?root n)"
      by (auto elim: readable_records_member)
    with nm have "SName s = n"
      by (auto simp: names_match_def list_all_iff)
    with n child_names_valid[OF v n(1)] show ?thesis
      by (simp add: join_valid_name)
  qed
  have "if removable e cfg cutoff s
        then node_at (fs w') (?root @ [SName s]) = None \<and> Get cfg (SName s) w' = Inl MetadataNotFound
        else Get cfg (SName s) w' = Inr s"
    if s: "s \<in> set ?ss" for s
  proof (cases "removable e cfg cutoff s")
    case True
    with s facts[OF s] have g1: "?gone (?root @ [SName s])"
      and g2: "?gone (?root @ [SName s, ''metadata.yaml''])"
      by (auto simp: list_ex_iff)
    have "node_at (fs w') (?root @ [SName s]) = None"
      using g1 by (simp add: fsw node_at_filter)
    moreover have "node_at (fs w') (?root @ [SName s, ''metadata.yaml'']) = None"
      using g2 by (simp add: fsw node_at_filter)
    then have "Get cfg (SName s) w' = Inl MetadataNotFound"
      using facts[OF s] by (simp add: Get_def loadMetadata_eq)
    ultimately show ?thesis using True by simp
  next
    case False
    have "\<not> ?gone (?root @ [SName s, ''metadata.yaml''])"
    proof
      assume "?gone (?root @ [SName s, ''metadata.yaml''])"
      then obtain s' where s': "s' \<in> set ?ss" "removable e cfg cutoff s'"
        "prefix (join ?root (SName s')) (?root @ [SName s, ''metadata.yaml''])"
        by (auto simp: list_ex_iff)
      with facts[OF s'(1)] have "SName s' = SName s"
        by (simp add: prefix_child)
      with facts[OF s'(1)] facts[OF s] have "s' = s"
        by (auto intro: entry_records_single)
      with s'(2) False show False by simp
    qed
    then have "node_at (fs w') (?root @ [SName s, ''metadata.yaml''])
                 = map_of (fs w) (?root @ [SName s, ''metadata.yaml''])"
      by (simp add: fsw node_at_filter)
    also have "\<dots> = node_at (fs w) (?root @ [SName s, ''metadata.yaml''])"
      by (simp add: node_at_def)
    finally have "node_at (fs w') (?root @ [SName s, ''metadata.yaml''])
                 = node_at (fs w) (?root @ [SName s, ''metadata.yaml''])" .
    moreover from facts[OF s] obtain r0 where
      "node_at (fs w) (?root @ [SName s, ''metadata.yaml'']) = Some (File (Meta r0))"
      "s = r0\<lparr>SPath := ?root @ [SName s]\<rparr>"
      by (auto dest!: entry_records_member)
    ultimately have "Get cfg (SName s) w' = Inr s"
      using facts[OF s] by (simp add: Get_def loadMetadata_eq)
    with False show ?thesis by simp
  qed
  with l rw d show ?thesis by blast
qed


text \<open>
  Claim C6 on a catalog whose names do not match. The sweep removes the directory
  called by the \<open>name\<close> field of a record, not the directory the record was read
  from. In the first sample root the old snapshot in \<open>valid-snapshot\<close> is reported as
  deleted and is still listed afterwards. In the second the record with the empty
  name makes the sweep remove the snapshot root itself, and the marker-prefixed
  backup with it.
\<close>

theorem Cleanup_misses_renamed_snapshot:
  "map SName (projr (List sample_config renamed_world)) = [''valid'']
   \<and> fst (CleanupOldSnapshots sample_env sample_config renamed_world) = Inr [''valid'']
   \<and> map SName (projr (List sample_config
         (snd (CleanupOldSnapshots sample_env sample_config renamed_world)))) = [''valid'']
   \<and> isl (Get sample_config ''_pre-restore-20240115-103000'' unnamed_world) = False
   \<and> fst (CleanupOldSnapshots sample_env sample_config unnamed_world) = Inr [[]]
   \<and> Get sample_config ''_pre-restore-20240115-103000''
         (snd (CleanupOldSnapshots sample_env sample_config unnamed_world))
       = Inl MetadataNotFound"
  by code_simp

end
